theory Spec2Isabelle
  imports Main "HOL-Library.Word"
begin

section \<open>The data of \<open>onedrive_glycoshield.py\<close>\<close>

text \<open>
  The script talks to one collaborator, the Graph REST service, through \<open>requests\<close>, reads
  local files and prints one JSON object. The embedding makes these three explicit:
  \<^item> every HTTP call is a value of \<open>request\<close>; the calls issued so far are the field
    \<open>sent\<close> of the state, oldest first;
  \<^item> the service is a parameter \<open>srv\<close>: it answers the newest call of a history of calls,
    so any service, with or without a memory of its own, is some \<open>srv\<close>;
  \<^item> the disk is a map from paths to what is stored there, a regular file with its bytes or
    a directory; a path outside the domain of the map does not exist.
  The progress lines of the script go to \<open>sys.stderr\<close> only and are left out; the two
  \<open>print(json.dumps(...))\<close> of the guard are the only writes to the standard output.
  Response bodies are taken after \<open>.json()\<close>, in the shape the endpoint documents; a key
  the code indexes with \<open>[...]\<close> may be missing, which raises \<open>KeyError\<close>.
\<close>

type_synonym byte = "8 word"

text \<open>
  What a path of the disk holds. \<open>os.path.exists\<close> is true of both kinds; \<open>open\<close> on a
  directory raises \<open>IsADirectoryError\<close>, and the directory carries the message of that
  error, which the operating system words.
\<close>

datatype node = File "byte list" | Directory string

record item =
  item_name :: string
  item_id :: string
  item_folder :: bool

text \<open>
  A permission record of the invite answer. \<open>link\<close> is \<open>None\<close> when the record has no
  \<open>"link"\<close> key, \<open>Some None\<close> when the link has no \<open>"webUrl"\<close>, \<open>Some (Some u)\<close>
  when it has.
\<close>

record permission =
  link :: "string option option"

datatype payload =
    NoJson
  | TokenJson string
  | CollectionJson "item list"
  | ItemJson item
  | SessionJson string
  | PermissionsJson "permission list"

record response =
  status_code :: nat
  body_text :: string
  error_line :: string
  payload :: payload

text \<open>
  The first argument of the Graph calls is the bearer token of the \<open>Authorization\<close>
  header; the chunk writes carry their own two headers only, here the range
  \<open>start\<close>, \<open>end\<close>, \<open>filesize\<close> and the chunk, whose length is \<open>Content-Length\<close>.
\<close>

datatype request =
    TokenRequest
  | ListChildren string string string
  | CreateFolder string string string
  | CreateUploadSession string string string
  | PutChunk string int int int "byte list"
  | Invite string string "string list" string

type_synonym server = "request list \<Rightarrow> response"

datatype exn =
    SystemExit string
  | Exception string
  | FileNotFoundError string
  | HTTPError string
  | KeyError string
  | IsADirectoryError string

record state =
  sent :: "request list"
  fs :: "string \<rightharpoonup> node"

datatype jvalue = JStr string | JList "string list"

type_synonym jobject = "(string \<times> jvalue) list"

record args =
  subfolder :: string
  files_to_upload :: "string list"
  new_emails :: "string list"

record outcome =
  exit_code :: int
  stdout :: "jobject list"
  final :: state

section \<open>Library behaviour the script relies on\<close>

definition digit_char :: "nat \<Rightarrow> char" where
  "digit_char d = char_of (48 + d)"

fun str_nat :: "nat \<Rightarrow> string" where
  "str_nat n = (if n < 10 then [digit_char n] else str_nat (n div 10) @ [digit_char (n mod 10)])"

declare str_nat.simps [simp del]

text \<open>
  \<open>str.lower\<close>. A \<open>char\<close> stands for a code point below 256. The capitals there are A to Z
  (65 to 90) and the accented capitals 192 to 222 but for the multiplication sign 215; each
  is 32 below its small letter, and \<open>str.lower\<close> leaves every other code point below 256 as
  it is. Names with a code point from 256 on are not values of this embedding.
\<close>

definition lower_char :: "char \<Rightarrow> char" where
  "lower_char c =
     (let n = (of_char c :: nat)
      in if (65 \<le> n \<and> n \<le> 90) \<or> (192 \<le> n \<and> n \<le> 222 \<and> n \<noteq> 215) then char_of (n + 32) else c)"

definition lower :: "string \<Rightarrow> string" where
  "lower s = map lower_char s"

definition basename :: "string \<Rightarrow> string" where
  "basename p = rev (takeWhile (\<lambda>c. c \<noteq> CHR ''/'') (rev p))"

definition encode :: "string \<Rightarrow> byte list" where
  "encode s = map of_char s"

text \<open>\<open>Response.raise_for_status\<close> raises for the statuses 400 to 599; \<open>Response.ok\<close> is
  true when it does not raise.\<close>

definition http_error :: "response \<Rightarrow> bool" where
  "http_error r = (400 \<le> status_code r \<and> status_code r < 600)"

definition ok :: "response \<Rightarrow> bool" where
  "ok r = (\<not> http_error r)"

definition http :: "server \<Rightarrow> request \<Rightarrow> state \<Rightarrow> response \<times> state" where
  "http srv req st = (srv (sent st @ [req]), st\<lparr>sent := sent st @ [req]\<rparr>)"

text \<open>\<open>str(e)\<close> of the exceptions the script can raise.\<close>

fun str_exn :: "exn \<Rightarrow> string" where
  "str_exn (SystemExit m) = m"
| "str_exn (Exception m) = m"
| "str_exn (FileNotFoundError m) = m"
| "str_exn (HTTPError m) = m"
| "str_exn (KeyError k) = [CHR 0x27] @ k @ [CHR 0x27]"
| "str_exn (IsADirectoryError m) = m"

text \<open>\<open>except Exception\<close> catches every exception of the script but \<open>SystemExit\<close>, which
  derives from \<open>BaseException\<close>.\<close>

fun is_Exception :: "exn \<Rightarrow> bool" where
  "is_Exception (SystemExit m) = False"
| "is_Exception e = True"

section \<open>The script\<close>

definition BASE_FOLDER_NAME :: string where
  "BASE_FOLDER_NAME = ''GlycoShield''"

definition DEFAULT_RECIPIENT_EMAILS :: "string list" where
  "DEFAULT_RECIPIENT_EMAILS = [''simbiosyslab.neu@gmail.com'']"

definition default_args :: args where
  "default_args = \<lparr>subfolder = ''public'', files_to_upload = [''test_upload.txt''], new_emails = []\<rparr>"

definition get_access_token :: "server \<Rightarrow> state \<Rightarrow> (exn + string) \<times> state" where
  "get_access_token srv st =
     (let (resp, st1) = http srv TokenRequest st in
      if \<not> ok resp then
        (Inl (SystemExit (''Token request failed: '' @ str_nat (status_code resp) @ [CHR 0x0A] @ body_text resp)), st1)
      else case payload resp of
             TokenJson token \<Rightarrow> (Inr token, st1)
           | _ \<Rightarrow> (Inl (KeyError ''access_token''), st1))"

definition folder_match :: "string \<Rightarrow> item \<Rightarrow> bool" where
  "folder_match folder_name it = (lower (item_name it) = lower folder_name \<and> item_folder it)"

definition get_or_create_folder ::
  "server \<Rightarrow> string \<Rightarrow> string \<Rightarrow> string \<Rightarrow> state \<Rightarrow> (exn + string) \<times> state" where
  "get_or_create_folder srv headers parent_id folder_name st =
     (let (r_find, st1) = http srv (ListChildren headers parent_id folder_name) st in
      if http_error r_find then (Inl (HTTPError (error_line r_find)), st1)
      else
        let items = (case payload r_find of CollectionJson xs \<Rightarrow> xs | _ \<Rightarrow> []) in
        case find (folder_match folder_name) items of
          Some it \<Rightarrow> (Inr (item_id it), st1)
        | None \<Rightarrow>
            let (r_create, st2) = http srv (CreateFolder headers parent_id folder_name) st1 in
            if \<not> ok r_create then
              (Inl (SystemExit (''Failed to create folder: '' @ str_nat (status_code r_create)
                                 @ [CHR 0x0A] @ body_text r_create)), st2)
            else case payload r_create of
                   ItemJson new_folder \<Rightarrow> (Inr (item_id new_folder), st2)
                 | _ \<Rightarrow> (Inl (KeyError ''id''), st2))"

definition grant_folder_access ::
  "server \<Rightarrow> string \<Rightarrow> string \<Rightarrow> string list \<Rightarrow> string \<Rightarrow> state \<Rightarrow> (exn + string) \<times> state" where
  "grant_folder_access srv headers the_item_id email_list sub_folder_name st =
     (let (r, st1) = http srv (Invite headers the_item_id email_list sub_folder_name) st in
      if \<not> ok r then
        (Inl (Exception (''Failed to grant access: '' @ str_nat (status_code r) @ [CHR 0x0A] @ body_text r)), st1)
      else
        let permissions = (case payload r of PermissionsJson ps \<Rightarrow> ps | _ \<Rightarrow> []) in
        case permissions of
          [] \<Rightarrow> (Inl (Exception ''Invite sent, but no permission data was returned.''), st1)
        | p # _ \<Rightarrow>
            (case link p of
               Some (Some webUrl) \<Rightarrow>
                 if webUrl = [] then
                   (Inr (''Access granted to item '' @ the_item_id @ '' (no direct link returned)''), st1)
                 else (Inr webUrl, st1)
             | _ \<Rightarrow> (Inr (''Access granted to item '' @ the_item_id @ '' (no direct link returned)''), st1)))"

definition chunk_size :: nat where
  "chunk_size = 5 * 1024 * 1024"

text \<open>
  The \<open>while start < filesize\<close> loop of \<open>upload_file\<close>. \<open>content\<close> are the bytes of the open
  file and \<open>pos\<close> is the read position of the file object, which \<open>f.read\<close> advances by what
  it returns; \<open>start\<close> is the cursor of the script. The two are different variables of the
  program, so the loop is a partial function: \<open>None\<close> stands for a run that never leaves it.
\<close>

partial_function (option) upload_loop ::
  "server \<Rightarrow> nat \<Rightarrow> string \<Rightarrow> byte list \<Rightarrow> int \<Rightarrow> nat \<Rightarrow> int \<Rightarrow> state \<Rightarrow> ((exn + unit) \<times> state) option"
where
  "upload_loop srv csize upload_url content filesize pos start st =
     (if start < filesize then
        (let chunk = take csize (drop pos content);
             end = start + int (length chunk) - 1;
             (rr, st1) = http srv (PutChunk upload_url start end filesize chunk) st
         in if status_code rr \<notin> {200, 201, 202} then
              Some (Inl (Exception (''Chunk upload failed: '' @ str_nat (status_code rr)
                                     @ [CHR 0x0A] @ body_text rr)), st1)
            else upload_loop srv csize upload_url content filesize (pos + length chunk) (end + 1) st1)
      else Some (Inr (), st))"

definition upload_file ::
  "server \<Rightarrow> string \<Rightarrow> string \<Rightarrow> string \<Rightarrow> state \<Rightarrow> ((exn + unit) \<times> state) option" where
  "upload_file srv headers parent_id local_file_path st =
     (case fs st local_file_path of
        None \<Rightarrow>
          Some (Inl (FileNotFoundError (''The specified file does not exist: '' @ local_file_path)), st)
      | Some nd \<Rightarrow>
          let file_name_only = basename local_file_path;
              (r, st1) = http srv (CreateUploadSession headers parent_id file_name_only) st
          in if http_error r then Some (Inl (HTTPError (error_line r)), st1)
             else case payload r of
                    SessionJson upload_url \<Rightarrow>
                      (case nd of
                         Directory msg \<Rightarrow> Some (Inl (IsADirectoryError msg), st1)
                       | File content \<Rightarrow>
                           upload_loop srv chunk_size upload_url content (int (length content)) 0 0 st1)
                  | _ \<Rightarrow> Some (Inl (KeyError ''uploadUrl''), st1))"

text \<open>The \<open>for file_path in files_to_upload\<close> loop of \<open>main\<close>, with the list
  \<open>successfully_uploaded_files\<close> as accumulator.\<close>

fun upload_files ::
  "server \<Rightarrow> string \<Rightarrow> string \<Rightarrow> string list \<Rightarrow> string list \<Rightarrow> state
     \<Rightarrow> ((exn + string list) \<times> state) option" where
  "upload_files srv headers subfolder_id [] successfully_uploaded_files st =
     Some (Inr successfully_uploaded_files, st)"
| "upload_files srv headers subfolder_id (file_path # rest) successfully_uploaded_files st =
     (case upload_file srv headers subfolder_id file_path st of
        None \<Rightarrow> None
      | Some (Inl e, st1) \<Rightarrow> Some (Inl e, st1)
      | Some (Inr u, st1) \<Rightarrow>
          upload_files srv headers subfolder_id rest (successfully_uploaded_files @ [file_path]) st1)"

definition dummy_file :: "state \<Rightarrow> state" where
  "dummy_file st =
     st\<lparr>fs := (fs st)(''test_upload.txt'' \<mapsto> File (encode ''This is a test upload file.''))\<rparr>"

definition main :: "server \<Rightarrow> args \<Rightarrow> state \<Rightarrow> ((exn + jobject) \<times> state) option" where
  "main srv a st =
     (let sub_folder_name = subfolder a;
          recipient_emails = DEFAULT_RECIPIENT_EMAILS @ new_emails a
      in case get_access_token srv st of
           (Inl e, st1) \<Rightarrow> Some (Inl e, st1)
         | (Inr token, st1) \<Rightarrow>
       (let headers = ''Bearer '' @ token in
        case get_or_create_folder srv headers ''root'' BASE_FOLDER_NAME st1 of
           (Inl e, st2) \<Rightarrow> Some (Inl e, st2)
         | (Inr glycoshield_id, st2) \<Rightarrow>
       (case get_or_create_folder srv headers glycoshield_id sub_folder_name st2 of
           (Inl e, st3) \<Rightarrow> Some (Inl e, st3)
         | (Inr subfolder_id, st3) \<Rightarrow>
       (let st4 = (if files_to_upload a = [''test_upload.txt''] \<and> fs st3 ''test_upload.txt'' = None
                   then dummy_file st3 else st3)
        in case upload_files srv headers subfolder_id (files_to_upload a) [] st4 of
           None \<Rightarrow> None
         | Some (Inl e, st5) \<Rightarrow> Some (Inl e, st5)
         | Some (Inr successfully_uploaded_files, st5) \<Rightarrow>
       (case grant_folder_access srv headers subfolder_id recipient_emails sub_folder_name st5 of
           (Inl e, st6) \<Rightarrow> Some (Inl e, st6)
         | (Inr share_link, st6) \<Rightarrow>
             Some (Inr [(''status'', JStr ''success''),
                        (''base_folder'', JStr BASE_FOLDER_NAME),
                        (''sub_folder'', JStr sub_folder_name),
                        (''sub_folder_id'', JStr subfolder_id),
                        (''files_uploaded'', JList successfully_uploaded_files),
                        (''shared_with'', JList recipient_emails),
                        (''invite_link'', JStr share_link)], st6))))))"

text \<open>
  The \<open>__main__\<close> guard, started on a disk \<open>disk\<close> with no call issued yet. A
  \<open>SystemExit\<close> carrying a message is not an \<open>Exception\<close>: it leaves the \<open>try\<close>, the
  interpreter prints the message on \<open>sys.stderr\<close> and the exit code is 1.
\<close>

definition run :: "server \<Rightarrow> args \<Rightarrow> (string \<rightharpoonup> node) \<Rightarrow> outcome option" where
  "run srv a disk =
     (case main srv a \<lparr>sent = [], fs = disk\<rparr> of
        None \<Rightarrow> None
      | Some (Inr success_data, st) \<Rightarrow> Some \<lparr>exit_code = 0, stdout = [success_data], final = st\<rparr>
      | Some (Inl e, st) \<Rightarrow>
          if is_Exception e then
            Some \<lparr>exit_code = 1,
                  stdout = [[(''status'', JStr ''failure''), (''error'', JStr (str_exn e))]],
                  final = st\<rparr>
          else Some \<lparr>exit_code = 1, stdout = [], final = st\<rparr>)"

section \<open>Auxiliary notions for the statements\<close>

text \<open>
  The partition of section 4.3 of the design, in its words: fixed-size windows, the final
  one possibly shorter, read sequentially from the start of the file.
\<close>

function spec_windows :: "nat \<Rightarrow> 'a list \<Rightarrow> 'a list list" where
  "spec_windows n xs = (if n = 0 \<or> xs = [] then [] else take n xs # spec_windows n (drop n xs))"
  by pat_completeness auto
termination
  by (relation "measure (\<lambda>(n, xs). length xs)") auto

declare spec_windows.simps [simp del]

text \<open>The body of the upload loop, iterated over a given list of windows.\<close>

fun put_windows ::
  "server \<Rightarrow> string \<Rightarrow> int \<Rightarrow> int \<Rightarrow> byte list list \<Rightarrow> state \<Rightarrow> (exn + unit) \<times> state" where
  "put_windows srv upload_url filesize start [] st = (Inr (), st)"
| "put_windows srv upload_url filesize start (chunk # ws) st =
     (let end = start + int (length chunk) - 1;
          (rr, st1) = http srv (PutChunk upload_url start end filesize chunk) st
      in if status_code rr \<notin> {200, 201, 202} then
           (Inl (Exception (''Chunk upload failed: '' @ str_nat (status_code rr)
                              @ [CHR 0x0A] @ body_text rr)), st1)
         else put_windows srv upload_url filesize (end + 1) ws st1)"

text \<open>The chunk writes of a trace, and the parts of a chunk write.\<close>

fun is_put :: "request \<Rightarrow> bool" where
  "is_put (PutChunk u s e t d) = True"
| "is_put r = False"

fun put_start :: "request \<Rightarrow> int" where
  "put_start (PutChunk u s e t d) = s"
| "put_start r = 0"

fun put_end :: "request \<Rightarrow> int" where
  "put_end (PutChunk u s e t d) = e"
| "put_end r = 0"

fun put_total :: "request \<Rightarrow> int" where
  "put_total (PutChunk u s e t d) = t"
| "put_total r = 0"

fun put_data :: "request \<Rightarrow> byte list" where
  "put_data (PutChunk u s e t d) = d"
| "put_data r = []"

text \<open>The chunk writes that carry the windows \<open>ws\<close>, the first at offset \<open>start\<close>.\<close>

fun chunk_puts :: "string \<Rightarrow> int \<Rightarrow> int \<Rightarrow> byte list list \<Rightarrow> request list" where
  "chunk_puts upload_url filesize start [] = []"
| "chunk_puts upload_url filesize start (chunk # ws) =
     PutChunk upload_url start (start + int (length chunk) - 1) filesize chunk
       # chunk_puts upload_url filesize (start + int (length chunk)) ws"

text \<open>The answers that let a transfer continue, and the exception raised on any other.\<close>

definition accepted :: "response \<Rightarrow> bool" where
  "accepted rr = (status_code rr \<in> {200, 201, 202})"

definition chunk_error :: "response \<Rightarrow> exn" where
  "chunk_error rr =
     Exception (''Chunk upload failed: '' @ str_nat (status_code rr) @ [CHR 0x0A] @ body_text rr)"

text \<open>
  The answer to \<open>createUploadSession\<close> that lets \<open>upload_file\<close> reach its loop, and the
  chunk writes \<open>puts\<close>, issued after the calls \<open>tr\<close>, that the service has all accepted.
\<close>

definition session_opened :: "response \<Rightarrow> bool" where
  "session_opened r = (\<not> http_error r \<and> (case payload r of SessionJson u \<Rightarrow> True | _ \<Rightarrow> False))"

definition all_accepted :: "server \<Rightarrow> request list \<Rightarrow> request list \<Rightarrow> bool" where
  "all_accepted srv tr puts = (\<forall>i<length puts. accepted (srv (tr @ take (Suc i) puts)))"

text \<open>
  Two services for the examples. \<open>ok_server\<close> grants every call: it lists the folder asked
  for, opens a session and accepts every chunk. \<open>deny_server\<close> answers every call with 401.
\<close>

definition ok_server :: server where
  "ok_server tr =
     (case last tr of
        TokenRequest \<Rightarrow>
          \<lparr>status_code = 200, body_text = [], error_line = [], payload = TokenJson ''t''\<rparr>
      | ListChildren h p n \<Rightarrow>
          \<lparr>status_code = 200, body_text = [], error_line = [],
           payload = CollectionJson [\<lparr>item_name = n, item_id = ''id-'' @ n, item_folder = True\<rparr>]\<rparr>
      | CreateFolder h p n \<Rightarrow>
          \<lparr>status_code = 201, body_text = [], error_line = [],
           payload = ItemJson \<lparr>item_name = n, item_id = ''id-'' @ n, item_folder = True\<rparr>\<rparr>
      | CreateUploadSession h p n \<Rightarrow>
          \<lparr>status_code = 200, body_text = [], error_line = [], payload = SessionJson ''u''\<rparr>
      | PutChunk u s e t d \<Rightarrow>
          \<lparr>status_code = 202, body_text = [], error_line = [], payload = NoJson\<rparr>
      | Invite h i es n \<Rightarrow>
          \<lparr>status_code = 200, body_text = [], error_line = [],
           payload = PermissionsJson [\<lparr>link = Some (Some ''https://share.example/x'')\<rparr>]\<rparr>)"

definition deny_server :: server where
  "deny_server tr =
     \<lparr>status_code = 401, body_text = ''denied'', error_line = ''401 Client Error'', payload = NoJson\<rparr>"

text \<open>The exception a stage ends with, if any.\<close>

definition err_of :: "exn + 'a \<Rightarrow> exn option" where
  "err_of res = (case res of Inl e \<Rightarrow> Some e | Inr v \<Rightarrow> None)"

text \<open>
  The discipline of the chunk writes along a trace \<open>tr\<close> that ended with \<open>eo\<close>: a chunk write
  whose answer is not accepted is the last call of the trace, and the trace ended with the
  exception for that answer.
\<close>

definition chunk_rule :: "server \<Rightarrow> request list \<Rightarrow> exn option \<Rightarrow> bool" where
  "chunk_rule srv tr eo =
     (\<forall>i<length tr. is_put (tr ! i) \<longrightarrow> \<not> accepted (srv (take (Suc i) tr)) \<longrightarrow>
        Suc i = length tr \<and> eo = Some (chunk_error (srv (take (Suc i) tr))))"

fun is_invite :: "request \<Rightarrow> bool" where
  "is_invite (Invite h i es n) = True"
| "is_invite r = False"

text \<open>What the code reads in the answers: \<open>r.json().get("value", [])\<close> of the invite answer,
  and the children a listing call issued after the trace \<open>tr\<close> yields (\<open>None\<close> when
  \<open>raise_for_status\<close> raises).\<close>

definition permissions_of :: "response \<Rightarrow> permission list" where
  "permissions_of r = (case payload r of PermissionsJson ps \<Rightarrow> ps | _ \<Rightarrow> [])"

definition children :: "server \<Rightarrow> request list \<Rightarrow> string \<Rightarrow> string \<Rightarrow> string \<Rightarrow> item list option" where
  "children srv tr headers parent_id folder_name =
     (let r_find = srv (tr @ [ListChildren headers parent_id folder_name]) in
      if http_error r_find then None
      else Some (case payload r_find of CollectionJson xs \<Rightarrow> xs | _ \<Rightarrow> []))"

text \<open>The folder a call of \<open>get_or_create_folder\<close> in state \<open>st\<close> creates, as the
  creation answer describes it; none when the call finds the folder or fails.\<close>

definition created_by :: "server \<Rightarrow> string \<Rightarrow> string \<Rightarrow> string \<Rightarrow> state \<Rightarrow> item list" where
  "created_by srv headers parent_id folder_name st =
     (case children srv (sent st) headers parent_id folder_name of
        None \<Rightarrow> []
      | Some items \<Rightarrow>
          (case find (folder_match folder_name) items of
             Some it \<Rightarrow> []
           | None \<Rightarrow>
               (let r_create = srv (sent st @ [ListChildren headers parent_id folder_name,
                                                CreateFolder headers parent_id folder_name])
                in if ok r_create then (case payload r_create of ItemJson it \<Rightarrow> [it] | _ \<Rightarrow> [])
                   else [])))"

text \<open>A service that answers the invite with the permission records \<open>ps\<close>, and every
  other call as \<open>ok_server\<close> does.\<close>

definition invite_server :: "permission list \<Rightarrow> server" where
  "invite_server ps tr =
     (case last tr of
        Invite h i es n \<Rightarrow>
          \<lparr>status_code = 200, body_text = [], error_line = [], payload = PermissionsJson ps\<rparr>
      | _ \<Rightarrow> ok_server tr)"

text \<open>A service with a memory, for the examples: it lists a folder once it has created it.\<close>

definition memory_server :: server where
  "memory_server tr =
     (case last tr of
        ListChildren h p n \<Rightarrow>
          \<lparr>status_code = 200, body_text = [], error_line = [],
           payload = CollectionJson
             (if CreateFolder h p n \<in> set tr
              then [\<lparr>item_name = n, item_id = ''new-'' @ n, item_folder = True\<rparr>] else [])\<rparr>
      | CreateFolder h p n \<Rightarrow>
          \<lparr>status_code = 201, body_text = [], error_line = [],
           payload = ItemJson \<lparr>item_name = n, item_id = ''new-'' @ n, item_folder = True\<rparr>\<rparr>
      | _ \<Rightarrow> ok_server tr)"

section \<open>The windows of a file\<close>

lemma spec_windows_Nil [simp]: "spec_windows n [] = []"
  by (simp add: spec_windows.simps)

lemma spec_windows_step:
  "0 < n \<Longrightarrow> xs \<noteq> [] \<Longrightarrow> spec_windows n xs = take n xs # spec_windows n (drop n xs)"
  by (subst spec_windows.simps) simp

lemma spec_windows_concat: "0 < n \<Longrightarrow> concat (spec_windows n xs) = xs"
proof (induction n xs rule: spec_windows.induct)
  case (1 n xs)
  then show ?case by (cases "xs = []") (simp_all add: spec_windows_step)
qed

lemma spec_windows_bounds:
  "0 < n \<Longrightarrow> w \<in> set (spec_windows n xs) \<Longrightarrow> 0 < length w \<and> length w \<le> n"
proof (induction n xs rule: spec_windows.induct)
  case (1 n xs)
  then show ?case by (cases "xs = []") (auto simp add: spec_windows_step)
qed

lemma spec_windows_full:
  "0 < n \<Longrightarrow> Suc i < length (spec_windows n xs) \<Longrightarrow> length (spec_windows n xs ! i) = n"
proof (induction n xs arbitrary: i rule: spec_windows.induct)
  case (1 n xs)
  show ?case
  proof (cases "xs = []")
    case True
    with 1 show ?thesis by simp
  next
    case False
    with "1.prems" have sw: "spec_windows n xs = take n xs # spec_windows n (drop n xs)"
      by (simp add: spec_windows_step)
    show ?thesis
    proof (cases i)
      case 0
      from "1.prems"(2) sw have "spec_windows n (drop n xs) \<noteq> []" by auto
      then have "drop n xs \<noteq> []" by auto
      then have "n < length xs" by simp
      with 0 sw show ?thesis by simp
    next
      case (Suc j)
      with "1.prems" sw have "Suc j < length (spec_windows n (drop n xs))" by simp
      with "1.IH" [of j] "1.prems"(1) False have "length (spec_windows n (drop n xs) ! j) = n" by simp
      with Suc sw show ?thesis by simp
    qed
  qed
qed

lemma ceil_step: "0 < n \<Longrightarrow> n \<le> (m::nat) \<Longrightarrow> (m + n - 1) div n = Suc ((m - n + n - 1) div n)"
proof -
  assume n: "0 < n" and le: "n \<le> m"
  have e: "m + n - 1 = (m - 1) + n" using n le by simp
  have "(m + n - 1) div n = ((m - 1) + n) div n" by (simp only: e)
  also have "\<dots> = Suc ((m - 1) div n)" using n div_add_self2 [of n "m - 1"] by simp
  also have "m - 1 = m - n + n - 1" using le by simp
  finally show ?thesis .
qed

lemma ceil_small: "0 < n \<Longrightarrow> 0 < m \<Longrightarrow> m < n \<Longrightarrow> (m + n - 1) div n = (1::nat)"
proof -
  assume n: "0 < n" and m: "0 < m" "m < n"
  have e: "m + n - 1 = (m - 1) + n" using n m by simp
  have "(m + n - 1) div n = ((m - 1) + n) div n" by (simp only: e)
  also have "\<dots> = Suc ((m - 1) div n)" using n div_add_self2 [of n "m - 1"] by simp
  also have "(m - 1) div n = 0" using m by simp
  finally show ?thesis by simp
qed

lemma spec_windows_length: "0 < n \<Longrightarrow> length (spec_windows n xs) = (length xs + n - 1) div n"
proof (induction n xs rule: spec_windows.induct)
  case (1 n xs)
  show ?case
  proof (cases "xs = []")
    case True
    with 1 show ?thesis by simp
  next
    case False
    with "1.prems" have sw: "spec_windows n xs = take n xs # spec_windows n (drop n xs)"
      by (simp add: spec_windows_step)
    from 1 False have IH: "length (spec_windows n (drop n xs)) = (length xs - n + n - 1) div n" by simp
    show ?thesis
    proof (cases "n \<le> length xs")
      case True
      with sw IH ceil_step [OF "1.prems" True] show ?thesis by simp
    next
      case False
      then have "length xs - n = 0" by simp
      moreover from False \<open>xs \<noteq> []\<close> have "(length xs + n - 1) div n = 1"
        using "1.prems" by (intro ceil_small) simp_all
      ultimately show ?thesis using sw IH "1.prems" by simp
    qed
  qed
qed

section \<open>The upload loop\<close>

lemma http_sent: "http srv req st = (srv (sent st @ [req]), st\<lparr>sent := sent st @ [req]\<rparr>)"
  by (simp add: http_def)

lemma upload_loop_eq:
  assumes "0 < csize" and "pos \<le> length content"
  shows "upload_loop srv csize upload_url content (int (length content)) pos (int pos) st
         = Some (put_windows srv upload_url (int (length content)) (int pos)
                   (spec_windows csize (drop pos content)) st)"
  using assms
proof (induction "length content - pos" arbitrary: pos st rule: less_induct)
  case less
  show ?case
  proof (cases "pos < length content")
    case False
    with less.prems have "pos = length content" by simp
    then show ?thesis by (subst upload_loop.simps) simp
  next
    case True
    let ?chunk = "take csize (drop pos content)"
    let ?st1 = "st\<lparr>sent := sent st @ [PutChunk upload_url (int pos) (int pos + int (length ?chunk) - 1) (int (length content)) ?chunk]\<rparr>"
    from True less.prems have len: "0 < length ?chunk" by simp
    have le: "pos + length ?chunk \<le> length content" using True by simp
    have IH: "upload_loop srv csize upload_url content (int (length content)) (pos + length ?chunk) (int (pos + length ?chunk)) ?st1
      = Some (put_windows srv upload_url (int (length content)) (int (pos + length ?chunk))
                   (spec_windows csize (drop (pos + length ?chunk) content)) ?st1)"
      using less.hyps [of "pos + length ?chunk" ?st1] len le less.prems(1) True by simp
    have dr: "drop (pos + length ?chunk) content = drop csize (drop pos content)"
      using True by (simp add: min_def add.commute)
    have sw: "spec_windows csize (drop pos content) = ?chunk # spec_windows csize (drop csize (drop pos content))"
      using True less.prems(1) by (intro spec_windows_step) simp_all
    have e1: "int pos + int (length ?chunk) - 1 + 1 = int (pos + length ?chunk)" by simp
    show ?thesis
      apply (subst upload_loop.simps)
      apply (subst sw)
      using True IH
      apply (simp only: put_windows.simps Let_def http_sent split e1 dr)
      apply simp
      done
  qed
qed

lemma put_windows_rejected:
  "\<not> accepted (srv (sent st @ [PutChunk u off (off + int (length w) - 1) t w])) \<Longrightarrow>
   put_windows srv u t off (w # ws) st =
     (Inl (chunk_error (srv (sent st @ [PutChunk u off (off + int (length w) - 1) t w]))),
      st\<lparr>sent := sent st @ [PutChunk u off (off + int (length w) - 1) t w]\<rparr>)"
  by (simp add: http_sent Let_def accepted_def chunk_error_def)

lemma put_windows_accepted:
  "accepted (srv (sent st @ [PutChunk u off (off + int (length w) - 1) t w])) \<Longrightarrow>
   put_windows srv u t off (w # ws) st =
     put_windows srv u t (off + int (length w)) ws
       (st\<lparr>sent := sent st @ [PutChunk u off (off + int (length w) - 1) t w]\<rparr>)"
  by (auto simp add: http_sent Let_def accepted_def)

declare put_windows.simps(2) [simp del]

lemma all_accepted_Nil [simp]: "all_accepted srv tr []"
  by (simp add: all_accepted_def)

lemma all_accepted_Cons:
  "all_accepted srv tr (r # rs) = (accepted (srv (tr @ [r])) \<and> all_accepted srv (tr @ [r]) rs)"
  by (simp add: all_accepted_def All_less_Suc2)

lemma put_windows_sent:
  "put_windows srv u t off ws st = (res, st') \<Longrightarrow>
   \<exists>k\<le>length ws. sent st' = sent st @ chunk_puts u t off (take k ws) \<and> fs st' = fs st
      \<and> (res = Inr () \<longrightarrow> k = length ws)
      \<and> (res = Inr () \<longleftrightarrow> all_accepted srv (sent st) (chunk_puts u t off (take k ws)))
      \<and> (res \<noteq> Inr () \<longrightarrow> 0 < k \<and> res = Inl (chunk_error (srv (sent st'))))"
proof (induction ws arbitrary: off st)
  case Nil
  then show ?case by auto
next
  case (Cons w ws)
  let ?req = "PutChunk u off (off + int (length w) - 1) t w"
  let ?st1 = "st\<lparr>sent := sent st @ [?req]\<rparr>"
  show ?case
  proof (cases "accepted (srv (sent st @ [?req]))")
    case False
    with Cons.prems have st': "st' = ?st1" and res: "res = Inl (chunk_error (srv (sent st @ [?req])))"
      by (auto simp add: put_windows_rejected)
    from st' res False
    have "1 \<le> length (w # ws) \<and> sent st' = sent st @ chunk_puts u t off (take 1 (w # ws)) \<and> fs st' = fs st
      \<and> (res = Inr () \<longrightarrow> 1 = length (w # ws))
      \<and> (res = Inr () \<longleftrightarrow> all_accepted srv (sent st) (chunk_puts u t off (take 1 (w # ws))))
      \<and> (res \<noteq> Inr () \<longrightarrow> 0 < (1::nat) \<and> res = Inl (chunk_error (srv (sent st'))))"
      by (simp add: all_accepted_Cons)
    then show ?thesis by (rule exI [of _ 1])
  next
    case True
    with Cons.prems have "put_windows srv u t (off + int (length w)) ws ?st1 = (res, st')"
      by (simp add: put_windows_accepted)
    from Cons.IH [OF this] obtain k where k: "k \<le> length ws"
      "sent st' = sent ?st1 @ chunk_puts u t (off + int (length w)) (take k ws)"
      "fs st' = fs ?st1" "res = Inr () \<longrightarrow> k = length ws"
      "res = Inr () \<longleftrightarrow> all_accepted srv (sent ?st1) (chunk_puts u t (off + int (length w)) (take k ws))"
      "res \<noteq> Inr () \<longrightarrow> 0 < k \<and> res = Inl (chunk_error (srv (sent st')))" by blast
    have c1: "sent st' = sent st @ chunk_puts u t off (take (Suc k) (w # ws))" using k(2) by simp
    have c2: "fs st' = fs st" using k(3) by simp
    have c3: "res = Inr () \<longrightarrow> Suc k = length (w # ws)" using k(4) by simp
    have c4: "res = Inr () \<longleftrightarrow> all_accepted srv (sent st) (chunk_puts u t off (take (Suc k) (w # ws)))"
      using k(5) True by (simp add: all_accepted_Cons)
    have c5: "res \<noteq> Inr () \<longrightarrow> 0 < Suc k \<and> res = Inl (chunk_error (srv (sent st')))"
      using k(6) by blast
    from k(1) have c0: "Suc k \<le> length (w # ws)" by simp
    from c0 c1 c2 c3 c4 c5
    have "Suc k \<le> length (w # ws) \<and> sent st' = sent st @ chunk_puts u t off (take (Suc k) (w # ws))
      \<and> fs st' = fs st
      \<and> (res = Inr () \<longrightarrow> Suc k = length (w # ws))
      \<and> (res = Inr () \<longleftrightarrow> all_accepted srv (sent st) (chunk_puts u t off (take (Suc k) (w # ws))))
      \<and> (res \<noteq> Inr () \<longrightarrow> 0 < Suc k \<and> res = Inl (chunk_error (srv (sent st'))))"
      by (intro conjI)
    then show ?thesis by (rule exI [of _ "Suc k"])
  qed
qed

lemma chunk_puts_length [simp]: "length (chunk_puts u t off ws) = length ws"
  by (induction ws arbitrary: off) simp_all

lemma chunk_puts_data [simp]: "map put_data (chunk_puts u t off ws) = ws"
  by (induction ws arbitrary: off) simp_all

lemma chunk_puts_shape:
  "r \<in> set (chunk_puts u t off ws) \<Longrightarrow>
   is_put r \<and> put_total r = t \<and> put_end r = put_start r + int (length (put_data r)) - 1"
  by (induction ws arbitrary: off) auto

lemma chunk_puts_start:
  "i < length ws \<Longrightarrow>
   put_start (chunk_puts u t off ws ! i) = off + int (sum_list (map length (take i ws)))"
proof (induction ws arbitrary: off i)
  case Nil
  then show ?case by simp
next
  case (Cons w ws)
  then show ?case by (cases i) simp_all
qed

lemma sum_full_windows:
  "i \<le> length ws \<Longrightarrow> \<forall>j<i. length (ws ! j) = n \<Longrightarrow> sum_list (map length (take i ws)) = i * n"
proof (induction i)
  case 0
  then show ?case by simp
next
  case (Suc i)
  then have "take (Suc i) ws = take i ws @ [ws ! i]" by (simp add: take_Suc_conv_app_nth)
  with Suc show ?case by simp
qed

text \<open>The chunk writes of a prefix of the windows of a file.\<close>

lemma window_puts_shape:
  assumes "0 < n" and "r \<in> set (chunk_puts u t off (take k (spec_windows n xs)))"
  shows "is_put r \<and> put_total r = t \<and> put_end r = put_start r + int (length (put_data r)) - 1
         \<and> 0 < length (put_data r) \<and> length (put_data r) \<le> n"
proof -
  from assms(2) have "put_data r \<in> put_data ` set (chunk_puts u t off (take k (spec_windows n xs)))"
    by (rule imageI)
  also have "\<dots> = set (take k (spec_windows n xs))"
    by (simp only: set_map [symmetric] chunk_puts_data)
  finally have "put_data r \<in> set (take k (spec_windows n xs))" .
  then have "put_data r \<in> set (spec_windows n xs)" by (rule in_set_takeD)
  with assms(1) have "0 < length (put_data r) \<and> length (put_data r) \<le> n"
    by (rule spec_windows_bounds)
  with chunk_puts_shape [OF assms(2)] show ?thesis by simp
qed

lemma window_puts_data:
  assumes "i < k" and "k \<le> length (spec_windows n xs)"
  shows "put_data (chunk_puts u t off (take k (spec_windows n xs)) ! i) = spec_windows n xs ! i"
proof -
  have "map put_data (chunk_puts u t off (take k (spec_windows n xs))) ! i
        = put_data (chunk_puts u t off (take k (spec_windows n xs)) ! i)"
    using assms by (intro nth_map) simp
  then have "take k (spec_windows n xs) ! i
        = put_data (chunk_puts u t off (take k (spec_windows n xs)) ! i)"
    by (simp only: chunk_puts_data)
  then show ?thesis using assms by simp
qed

lemma window_puts_start:
  assumes "0 < n" and "i < k" and "k \<le> length (spec_windows n xs)"
  shows "put_start (chunk_puts u t 0 (take k (spec_windows n xs)) ! i) = int (i * n)"
proof -
  have full: "\<forall>j<i. length (spec_windows n xs ! j) = n"
    using assms by (auto intro!: spec_windows_full)
  have "sum_list (map length (take i (spec_windows n xs))) = i * n"
    using assms full by (intro sum_full_windows) simp_all
  moreover have "take i (take k (spec_windows n xs)) = take i (spec_windows n xs)"
    using assms by (simp add: min_def)
  ultimately show ?thesis
    using assms chunk_puts_start [of i "take k (spec_windows n xs)" u t 0] by simp
qed

lemma window_puts_contiguous:
  assumes "0 < n" and "Suc i < k" and "k \<le> length (spec_windows n xs)"
  shows "length (put_data (chunk_puts u t 0 (take k (spec_windows n xs)) ! i)) = n
         \<and> put_start (chunk_puts u t 0 (take k (spec_windows n xs)) ! Suc i)
             = put_end (chunk_puts u t 0 (take k (spec_windows n xs)) ! i) + 1"
proof -
  let ?puts = "chunk_puts u t 0 (take k (spec_windows n xs))"
  have len: "length (put_data (?puts ! i)) = n"
    using assms by (simp add: window_puts_data spec_windows_full)
  have "?puts ! i \<in> set ?puts" using assms by (intro nth_mem) simp
  then have e: "put_end (?puts ! i) = put_start (?puts ! i) + int (length (put_data (?puts ! i))) - 1"
    using chunk_puts_shape by blast
  have s0: "put_start (?puts ! i) = int (i * n)" using assms by (intro window_puts_start) simp_all
  have s1: "put_start (?puts ! Suc i) = int (Suc i * n)" using assms by (intro window_puts_start) simp_all
  from len e s0 s1 show ?thesis by (simp add: algebra_simps)
qed

lemma window_puts_prefix:
  assumes "0 < n"
  shows "xs = concat (map put_data (chunk_puts u t off (take k (spec_windows n xs))))
              @ concat (drop k (spec_windows n xs))"
proof -
  have "concat (take k (spec_windows n xs)) @ concat (drop k (spec_windows n xs))
        = concat (spec_windows n xs)"
    by (simp only: concat_append [symmetric] append_take_drop_id)
  with assms show ?thesis by (simp add: spec_windows_concat)
qed

lemma window_puts_all:
  assumes "0 < n"
  shows "concat (map put_data (chunk_puts u t off (spec_windows n xs))) = xs
         \<and> sum_list (map (length \<circ> put_data) (chunk_puts u t off (spec_windows n xs))) = length xs"
proof -
  have c: "concat (map put_data (chunk_puts u t off (spec_windows n xs))) = xs"
    using assms by (simp add: spec_windows_concat)
  have "sum_list (map (length \<circ> put_data) (chunk_puts u t off (spec_windows n xs)))
        = sum_list (map length (map put_data (chunk_puts u t off (spec_windows n xs))))"
    by (simp only: map_map)
  also have "\<dots> = length (concat (spec_windows n xs))" by (simp add: length_concat)
  also have "\<dots> = length xs" using assms by (simp add: spec_windows_concat)
  finally show ?thesis using c by simp
qed

section \<open>Uploading one file\<close>

lemma upload_file_missing:
  "fs st p = None \<Longrightarrow>
   upload_file srv h parent p st
     = Some (Inl (FileNotFoundError (''The specified file does not exist: '' @ p)), st)"
  by (simp add: upload_file_def)

text \<open>For a file that exists the loop always ends: it is the iteration of its body over the
  windows of the file.\<close>

lemma upload_file_eq:
  "fs st p = Some (File content) \<Longrightarrow>
   upload_file srv h parent p st =
     (let req = CreateUploadSession h parent (basename p);
          r = srv (sent st @ [req]);
          st1 = st\<lparr>sent := sent st @ [req]\<rparr>
      in if http_error r then Some (Inl (HTTPError (error_line r)), st1)
         else case payload r of
                SessionJson upload_url \<Rightarrow>
                  Some (put_windows srv upload_url (int (length content)) 0
                          (spec_windows chunk_size content) st1)
              | _ \<Rightarrow> Some (Inl (KeyError ''uploadUrl''), st1))"
proof -
  have cs: "0 < chunk_size" by (simp add: chunk_size_def)
  have loop: "upload_loop srv chunk_size u content (int (length content)) 0 0 st1
      = Some (put_windows srv u (int (length content)) 0 (spec_windows chunk_size content) st1)" for u st1
    using upload_loop_eq [OF cs, of 0 content srv u st1] by simp
  assume "fs st p = Some (File content)"
  then show ?thesis
    by (simp add: upload_file_def http_sent Let_def loop split: payload.splits)
qed

lemma upload_file_directory:
  "fs st p = Some (Directory msg) \<Longrightarrow>
   upload_file srv h parent p st =
     (let req = CreateUploadSession h parent (basename p);
          r = srv (sent st @ [req]);
          st1 = st\<lparr>sent := sent st @ [req]\<rparr>
      in if http_error r then Some (Inl (HTTPError (error_line r)), st1)
         else case payload r of
                SessionJson upload_url \<Rightarrow> Some (Inl (IsADirectoryError msg), st1)
              | _ \<Rightarrow> Some (Inl (KeyError ''uploadUrl''), st1))"
  by (simp add: upload_file_def http_sent Let_def split: payload.splits)

lemma chunk_size_pos: "0 < chunk_size"
  by (simp add: chunk_size_def)

lemma upload_file_puts:
  assumes "fs st p = Some (File content)"
  shows "\<exists>res st' k. upload_file srv h parent p st = Some (res, st')
           \<and> k \<le> length (spec_windows chunk_size content)
           \<and> sent st' = sent st @ CreateUploadSession h parent (basename p)
                 # chunk_puts (case payload (srv (sent st @ [CreateUploadSession h parent (basename p)]))
                                 of SessionJson u \<Rightarrow> u | _ \<Rightarrow> [])
                     (int (length content)) 0 (take k (spec_windows chunk_size content))
           \<and> fs st' = fs st
           \<and> (res = Inr () \<longrightarrow> k = length (spec_windows chunk_size content))
           \<and> (res = Inr () \<longleftrightarrow>
                session_opened (srv (sent st @ [CreateUploadSession h parent (basename p)]))
                \<and> all_accepted srv (sent st @ [CreateUploadSession h parent (basename p)])
                     (chunk_puts (case payload (srv (sent st @ [CreateUploadSession h parent (basename p)]))
                                    of SessionJson u \<Rightarrow> u | _ \<Rightarrow> [])
                        (int (length content)) 0 (take k (spec_windows chunk_size content))))"
proof -
  let ?req = "CreateUploadSession h parent (basename p)"
  let ?r = "srv (sent st @ [?req])"
  let ?st1 = "st\<lparr>sent := sent st @ [?req]\<rparr>"
  let ?ws = "spec_windows chunk_size content"
  let ?n = "int (length content)"
  let ?u = "case payload ?r of SessionJson u \<Rightarrow> u | _ \<Rightarrow> []"
  show ?thesis
  proof (cases "session_opened ?r")
    case False
    have "\<exists>e. upload_file srv h parent p st = Some (Inl e, ?st1)"
    proof (cases "http_error ?r")
      case True
      with assms show ?thesis by (simp add: upload_file_eq Let_def)
    next
      case ne: False
      show ?thesis
      proof (cases "payload ?r")
        case (SessionJson u)
        with ne False show ?thesis by (simp add: session_opened_def)
      qed (use assms ne in \<open>simp_all add: upload_file_eq Let_def\<close>)
    qed
    then obtain e where e: "upload_file srv h parent p st = Some (Inl e, ?st1)" ..
    have "upload_file srv h parent p st = Some (Inl e, ?st1)
           \<and> 0 \<le> length ?ws
           \<and> sent ?st1 = sent st @ ?req # chunk_puts ?u ?n 0 (take 0 ?ws)
           \<and> fs ?st1 = fs st
           \<and> (Inl e = (Inr () :: exn + unit) \<longrightarrow> 0 = length ?ws)
           \<and> (Inl e = (Inr () :: exn + unit) \<longleftrightarrow>
                session_opened ?r \<and> all_accepted srv (sent st @ [?req]) (chunk_puts ?u ?n 0 (take 0 ?ws)))"
      using e False by simp
    then show ?thesis by blast
  next
    case True
    then have ne: "\<not> http_error ?r" by (simp add: session_opened_def)
    from True obtain u where u: "payload ?r = SessionJson u"
      by (cases "payload ?r") (simp_all add: session_opened_def)
    then have uu: "?u = u" by simp
    obtain res st' where pw: "put_windows srv u ?n 0 ?ws ?st1 = (res, st')"
      by (cases "put_windows srv u ?n 0 ?ws ?st1")
    from put_windows_sent [OF pw] obtain k where k: "k \<le> length ?ws"
      "sent st' = sent ?st1 @ chunk_puts u ?n 0 (take k ?ws)"
      "fs st' = fs ?st1" "res = Inr () \<longrightarrow> k = length ?ws"
      "res = Inr () \<longleftrightarrow> all_accepted srv (sent ?st1) (chunk_puts u ?n 0 (take k ?ws))"
      by blast
    have up: "upload_file srv h parent p st = Some (res, st')"
      using assms u ne pw by (simp add: upload_file_eq Let_def)
    have c2: "sent st' = sent st @ ?req # chunk_puts ?u ?n 0 (take k ?ws)"
      using k(2) by (simp only: uu) simp
    have c3: "fs st' = fs st" using k(3) by simp
    have c5: "res = Inr () \<longleftrightarrow>
                session_opened ?r \<and> all_accepted srv (sent st @ [?req]) (chunk_puts ?u ?n 0 (take k ?ws))"
      using k(5) True by (simp only: uu) simp
    from up k(1) c2 c3 k(4) c5
    have "upload_file srv h parent p st = Some (res, st')
           \<and> k \<le> length ?ws
           \<and> sent st' = sent st @ ?req # chunk_puts ?u ?n 0 (take k ?ws)
           \<and> fs st' = fs st
           \<and> (res = Inr () \<longrightarrow> k = length ?ws)
           \<and> (res = Inr () \<longleftrightarrow>
                session_opened ?r \<and> all_accepted srv (sent st @ [?req]) (chunk_puts ?u ?n 0 (take k ?ws)))"
      by (intro conjI)
    then show ?thesis by blast
  qed
qed

lemma two_windows:
  "spec_windows chunk_size (replicate chunk_size x @ [y]) = [replicate chunk_size x, [y]]"
proof -
  have "spec_windows chunk_size (replicate chunk_size x @ [y])
        = take chunk_size (replicate chunk_size x @ [y])
            # spec_windows chunk_size (drop chunk_size (replicate chunk_size x @ [y]))"
    using chunk_size_pos by (intro spec_windows_step) simp_all
  moreover have "spec_windows chunk_size [y] = [[y]]"
    using chunk_size_pos by (simp add: spec_windows_step)
  ultimately show ?thesis by simp
qed

section \<open>The stages of \<open>main\<close>\<close>

lemma main_cases:
  assumes "main srv a st = Some (res, st')"
  obtains
    (token) e where "get_access_token srv st = (Inl e, st')" "res = Inl e"
  | (base) token st1 e where "get_access_token srv st = (Inr token, st1)"
      "get_or_create_folder srv (''Bearer '' @ token) ''root'' BASE_FOLDER_NAME st1 = (Inl e, st')"
      "res = Inl e"
  | (sub) token st1 gid st2 e where "get_access_token srv st = (Inr token, st1)"
      "get_or_create_folder srv (''Bearer '' @ token) ''root'' BASE_FOLDER_NAME st1 = (Inr gid, st2)"
      "get_or_create_folder srv (''Bearer '' @ token) gid (subfolder a) st2 = (Inl e, st')"
      "res = Inl e"
  | (upload) token st1 gid st2 sid st3 e where "get_access_token srv st = (Inr token, st1)"
      "get_or_create_folder srv (''Bearer '' @ token) ''root'' BASE_FOLDER_NAME st1 = (Inr gid, st2)"
      "get_or_create_folder srv (''Bearer '' @ token) gid (subfolder a) st2 = (Inr sid, st3)"
      "upload_files srv (''Bearer '' @ token) sid (files_to_upload a) []
         (if files_to_upload a = [''test_upload.txt''] \<and> fs st3 ''test_upload.txt'' = None
          then dummy_file st3 else st3) = Some (Inl e, st')"
      "res = Inl e"
  | (grant) token st1 gid st2 sid st3 ups st5 e where "get_access_token srv st = (Inr token, st1)"
      "get_or_create_folder srv (''Bearer '' @ token) ''root'' BASE_FOLDER_NAME st1 = (Inr gid, st2)"
      "get_or_create_folder srv (''Bearer '' @ token) gid (subfolder a) st2 = (Inr sid, st3)"
      "upload_files srv (''Bearer '' @ token) sid (files_to_upload a) []
         (if files_to_upload a = [''test_upload.txt''] \<and> fs st3 ''test_upload.txt'' = None
          then dummy_file st3 else st3) = Some (Inr ups, st5)"
      "grant_folder_access srv (''Bearer '' @ token) sid (DEFAULT_RECIPIENT_EMAILS @ new_emails a)
         (subfolder a) st5 = (Inl e, st')"
      "res = Inl e"
  | (success) token st1 gid st2 sid st3 ups st5 share_link where "get_access_token srv st = (Inr token, st1)"
      "get_or_create_folder srv (''Bearer '' @ token) ''root'' BASE_FOLDER_NAME st1 = (Inr gid, st2)"
      "get_or_create_folder srv (''Bearer '' @ token) gid (subfolder a) st2 = (Inr sid, st3)"
      "upload_files srv (''Bearer '' @ token) sid (files_to_upload a) []
         (if files_to_upload a = [''test_upload.txt''] \<and> fs st3 ''test_upload.txt'' = None
          then dummy_file st3 else st3) = Some (Inr ups, st5)"
      "grant_folder_access srv (''Bearer '' @ token) sid (DEFAULT_RECIPIENT_EMAILS @ new_emails a)
         (subfolder a) st5 = (Inr share_link, st')"
      "res = Inr [(''status'', JStr ''success''),
                  (''base_folder'', JStr BASE_FOLDER_NAME),
                  (''sub_folder'', JStr (subfolder a)),
                  (''sub_folder_id'', JStr sid),
                  (''files_uploaded'', JList ups),
                  (''shared_with'', JList (DEFAULT_RECIPIENT_EMAILS @ new_emails a)),
                  (''invite_link'', JStr share_link)]"
proof -
  obtain r1 st1 where g1: "get_access_token srv st = (r1, st1)" by (cases "get_access_token srv st")
  show thesis
  proof (cases r1)
    case (Inl e)
    with assms g1 token show thesis by (simp add: main_def Let_def)
  next
    case tok: (Inr tk)
    obtain r2 st2 where g2:
      "get_or_create_folder srv (''Bearer '' @ tk) ''root'' BASE_FOLDER_NAME st1 = (r2, st2)"
      by (cases "get_or_create_folder srv (''Bearer '' @ tk) ''root'' BASE_FOLDER_NAME st1")
    show thesis
    proof (cases r2)
      case (Inl e)
      with assms g1 tok g2 base show thesis by (simp add: main_def Let_def)
    next
      case gid: (Inr gd)
      obtain r3 st3 where g3:
        "get_or_create_folder srv (''Bearer '' @ tk) gd (subfolder a) st2 = (r3, st3)"
        by (cases "get_or_create_folder srv (''Bearer '' @ tk) gd (subfolder a) st2")
      show thesis
      proof (cases r3)
        case (Inl e)
        with assms g1 tok g2 gid g3 sub show thesis by (simp add: main_def Let_def)
      next
        case sid: (Inr sd)
        let ?st4 = "if files_to_upload a = [''test_upload.txt''] \<and> fs st3 ''test_upload.txt'' = None
                    then dummy_file st3 else st3"
        from assms g1 tok g2 gid g3 sid
        obtain r5 st5 where g5:
          "upload_files srv (''Bearer '' @ tk) sd (files_to_upload a) [] ?st4 = Some (r5, st5)"
          by (cases "upload_files srv (''Bearer '' @ tk) sd (files_to_upload a) [] ?st4")
             (auto simp add: main_def Let_def split del: if_split)
        show thesis
        proof (cases r5)
          case (Inl e)
          with assms g1 tok g2 gid g3 sid g5 upload [of tk st1 gd st2 sd st3 e] show thesis
            by (simp add: main_def Let_def split del: if_split)
        next
          case ups: (Inr us)
          obtain r6 st6 where g6:
            "grant_folder_access srv (''Bearer '' @ tk) sd (DEFAULT_RECIPIENT_EMAILS @ new_emails a)
               (subfolder a) st5 = (r6, st6)"
            by (cases "grant_folder_access srv (''Bearer '' @ tk) sd (DEFAULT_RECIPIENT_EMAILS @ new_emails a)
               (subfolder a) st5")
          show thesis
          proof (cases r6)
            case (Inl e)
            with assms g1 tok g2 gid g3 sid g5 ups g6 grant [of tk st1 gd st2 sd st3 us st5 e]
            show thesis by (simp add: main_def Let_def split del: if_split)
          next
            case (Inr lnk)
            with assms g1 tok g2 gid g3 sid g5 ups g6 success [of tk st1 gd st2 sd st3 us st5 lnk]
            show thesis by (simp add: main_def Let_def split del: if_split)
          qed
        qed
      qed
    qed
  qed
qed

lemma get_access_token_state:
  "get_access_token srv st = (res, st') \<Longrightarrow> st' = st\<lparr>sent := sent st @ [TokenRequest]\<rparr>"
  by (auto simp add: get_access_token_def http_sent Let_def split: if_splits payload.splits)

lemma get_access_token_error:
  "get_access_token srv st = (Inl e, st') \<Longrightarrow> (\<exists>m. e = SystemExit m) \<or> (\<exists>k. e = KeyError k)"
  by (auto simp add: get_access_token_def http_sent Let_def split: if_splits payload.splits)

lemma get_or_create_folder_state:
  "get_or_create_folder srv h p n st = (res, st') \<Longrightarrow>
   fs st' = fs st \<and> (sent st' = sent st @ [ListChildren h p n]
                     \<or> sent st' = sent st @ [ListChildren h p n, CreateFolder h p n])"
  by (auto simp add: get_or_create_folder_def http_sent Let_def
        split: if_splits payload.splits option.splits)

lemma get_or_create_folder_error:
  "get_or_create_folder srv h p n st = (Inl e, st') \<Longrightarrow>
   (\<exists>m. e = SystemExit m) \<or> (\<exists>k. e = KeyError k) \<or> (\<exists>m. e = HTTPError m)"
  by (auto simp add: get_or_create_folder_def http_sent Let_def
        split: if_splits payload.splits option.splits)

lemma grant_folder_access_eq:
  "grant_folder_access srv h i es n st =
     (let r = srv (sent st @ [Invite h i es n]);
          st1 = st\<lparr>sent := sent st @ [Invite h i es n]\<rparr>
      in if \<not> ok r then
           (Inl (Exception (''Failed to grant access: '' @ str_nat (status_code r)
                             @ [CHR 0x0A] @ body_text r)), st1)
         else case permissions_of r of
                [] \<Rightarrow> (Inl (Exception ''Invite sent, but no permission data was returned.''), st1)
              | p # ps \<Rightarrow>
                  (Inr (case link p of
                          Some (Some webUrl) \<Rightarrow>
                            if webUrl = [] then ''Access granted to item '' @ i @ '' (no direct link returned)''
                            else webUrl
                        | _ \<Rightarrow> ''Access granted to item '' @ i @ '' (no direct link returned)''), st1))"
  by (simp add: grant_folder_access_def http_sent Let_def permissions_of_def
        split: list.splits option.splits)

lemma grant_folder_access_state:
  "grant_folder_access srv h i es n st = (res, st') \<Longrightarrow> st' = st\<lparr>sent := sent st @ [Invite h i es n]\<rparr>"
  by (auto simp add: grant_folder_access_eq Let_def split: if_splits list.splits)

lemma grant_folder_access_error:
  "grant_folder_access srv h i es n st = (Inl e, st') \<Longrightarrow> \<exists>m. e = Exception m"
  by (auto simp add: grant_folder_access_eq Let_def split: if_splits list.splits)

lemma upload_file_total: "\<exists>res st'. upload_file srv h sid p st = Some (res, st')"
proof (cases "fs st p")
  case None
  then show ?thesis by (simp add: upload_file_missing)
next
  case (Some nd)
  show ?thesis
  proof (cases nd)
    case (File content)
    with Some have "fs st p = Some (File content)" by simp
    from upload_file_puts [OF this, of srv h sid] show ?thesis by blast
  next
    case (Directory msg)
    with Some have "fs st p = Some (Directory msg)" by simp
    then show ?thesis by (simp add: upload_file_directory Let_def split: payload.splits)
  qed
qed

lemma upload_files_total: "\<exists>res st'. upload_files srv h sid ps acc st = Some (res, st')"
proof (induction ps arbitrary: acc st)
  case Nil
  then show ?case by simp
next
  case (Cons p ps)
  from upload_file_total [of srv h sid p st] obtain r1 st1
    where u1: "upload_file srv h sid p st = Some (r1, st1)" by blast
  show ?case
  proof (cases r1)
    case (Inl e)
    with u1 show ?thesis by simp
  next
    case (Inr v)
    with u1 Cons.IH [of "acc @ [p]" st1] show ?thesis by simp
  qed
qed

lemma main_total: "\<exists>res st'. main srv a st = Some (res, st')"
proof -
  obtain r1 st1 where g1: "get_access_token srv st = (r1, st1)" by (cases "get_access_token srv st")
  show ?thesis
  proof (cases r1)
    case (Inl e)
    with g1 show ?thesis by (simp add: main_def Let_def)
  next
    case tok: (Inr tk)
    obtain r2 st2 where g2:
      "get_or_create_folder srv (''Bearer '' @ tk) ''root'' BASE_FOLDER_NAME st1 = (r2, st2)"
      by (cases "get_or_create_folder srv (''Bearer '' @ tk) ''root'' BASE_FOLDER_NAME st1")
    show ?thesis
    proof (cases r2)
      case (Inl e)
      with g1 tok g2 show ?thesis by (simp add: main_def Let_def)
    next
      case gid: (Inr gd)
      obtain r3 st3 where g3:
        "get_or_create_folder srv (''Bearer '' @ tk) gd (subfolder a) st2 = (r3, st3)"
        by (cases "get_or_create_folder srv (''Bearer '' @ tk) gd (subfolder a) st2")
      show ?thesis
      proof (cases r3)
        case (Inl e)
        with g1 tok g2 gid g3 show ?thesis by (simp add: main_def Let_def)
      next
        case sid: (Inr sd)
        let ?st4 = "if files_to_upload a = [''test_upload.txt''] \<and> fs st3 ''test_upload.txt'' = None
                    then dummy_file st3 else st3"
        from upload_files_total [of srv "''Bearer '' @ tk" sd "files_to_upload a" "[]" ?st4]
        obtain r5 st5 where g5:
          "upload_files srv (''Bearer '' @ tk) sd (files_to_upload a) [] ?st4 = Some (r5, st5)"
          by blast
        show ?thesis
        proof (cases r5)
          case (Inl e)
          with g1 tok g2 gid g3 sid g5 show ?thesis
            by (simp add: main_def Let_def split del: if_split)
        next
          case ups: (Inr us)
          obtain r6 st6 where g6:
            "grant_folder_access srv (''Bearer '' @ tk) sd (DEFAULT_RECIPIENT_EMAILS @ new_emails a)
               (subfolder a) st5 = (r6, st6)"
            by (cases "grant_folder_access srv (''Bearer '' @ tk) sd (DEFAULT_RECIPIENT_EMAILS @ new_emails a)
               (subfolder a) st5")
          show ?thesis
          proof (cases r6)
            case (Inl e)
            with g1 tok g2 gid g3 sid g5 ups g6 show ?thesis
              by (simp add: main_def Let_def split del: if_split)
          next
            case (Inr lnk)
            with g1 tok g2 gid g3 sid g5 ups g6 show ?thesis
              by (simp add: main_def Let_def split del: if_split)
          qed
        qed
      qed
    qed
  qed
qed

lemma run_total: "\<exists>out. run srv a disk = Some out"
proof -
  from main_total [of srv a "\<lparr>sent = [], fs = disk\<rparr>"] obtain res st'
    where "main srv a \<lparr>sent = [], fs = disk\<rparr> = Some (res, st')" by blast
  then show ?thesis by (cases res) (simp_all add: run_def)
qed

lemma main_invite:
  assumes "get_access_token srv st = (Inr token, st1)"
    and "get_or_create_folder srv (''Bearer '' @ token) ''root'' BASE_FOLDER_NAME st1 = (Inr gid, st2)"
    and "get_or_create_folder srv (''Bearer '' @ token) gid (subfolder a) st2 = (Inr sid, st3)"
    and "upload_files srv (''Bearer '' @ token) sid (files_to_upload a) []
           (if files_to_upload a = [''test_upload.txt''] \<and> fs st3 ''test_upload.txt'' = None
            then dummy_file st3 else st3) = Some (Inr ups, st5)"
  shows "main srv a st =
     (case grant_folder_access srv (''Bearer '' @ token) sid (DEFAULT_RECIPIENT_EMAILS @ new_emails a)
             (subfolder a) st5 of
        (Inl e, st6) \<Rightarrow> Some (Inl e, st6)
      | (Inr share_link, st6) \<Rightarrow>
          Some (Inr [(''status'', JStr ''success''),
                     (''base_folder'', JStr BASE_FOLDER_NAME),
                     (''sub_folder'', JStr (subfolder a)),
                     (''sub_folder_id'', JStr sid),
                     (''files_uploaded'', JList ups),
                     (''shared_with'', JList (DEFAULT_RECIPIENT_EMAILS @ new_emails a)),
                     (''invite_link'', JStr share_link)], st6))"
  using assms by (simp add: main_def Let_def split del: if_split)

lemma one_window: "spec_windows chunk_size [x] = [[x]]"
  using chunk_size_pos by (simp add: spec_windows_step)

lemma upload_file_fs:
  assumes "upload_file srv h sid p st = Some (res, st')"
  shows "fs st' = fs st"
proof (cases "fs st p")
  case None
  with assms show ?thesis by (simp add: upload_file_missing)
next
  case (Some nd)
  show ?thesis
  proof (cases nd)
    case (File content)
    with Some have "fs st p = Some (File content)" by simp
    from upload_file_puts [OF this, of srv h sid] assms show ?thesis by auto
  next
    case (Directory msg)
    with Some have "fs st p = Some (Directory msg)" by simp
    with assms show ?thesis
      by (auto simp add: upload_file_directory Let_def split: if_splits payload.splits)
  qed
qed

lemma upload_files_fs:
  "upload_files srv h sid ps acc st = Some (res, st') \<Longrightarrow> fs st' = fs st"
proof (induction ps arbitrary: acc st)
  case Nil
  then show ?case by simp
next
  case (Cons p ps)
  from upload_file_total [of srv h sid p st] obtain r1 st1
    where u1: "upload_file srv h sid p st = Some (r1, st1)" by blast
  from upload_file_fs [OF u1] have f: "fs st1 = fs st" .
  show ?case
  proof (cases r1)
    case (Inl e)
    with Cons.prems u1 f show ?thesis by simp
  next
    case (Inr v)
    with Cons.prems u1 have "upload_files srv h sid ps (acc @ [p]) st1 = Some (res, st')" by simp
    from Cons.IH [OF this] f show ?thesis by simp
  qed
qed

lemma upload_files_done:
  "upload_files srv h sid ps acc st = Some (Inr ups, st') \<Longrightarrow>
   ups = acc @ ps \<and> (\<forall>p\<in>set ps. fs st p \<noteq> None)"
proof (induction ps arbitrary: acc st)
  case Nil
  then show ?case by simp
next
  case (Cons p ps)
  from upload_file_total [of srv h sid p st] obtain r1 st1
    where u1: "upload_file srv h sid p st = Some (r1, st1)" by blast
  from upload_file_fs [OF u1] have f: "fs st1 = fs st" .
  from Cons.prems u1 obtain v where r1: "r1 = Inr v" by (cases r1) auto
  with Cons.prems u1 have rest: "upload_files srv h sid ps (acc @ [p]) st1 = Some (Inr ups, st')" by simp
  have "fs st p \<noteq> None"
  proof
    assume "fs st p = None"
    with u1 r1 show False by (simp add: upload_file_missing)
  qed
  with Cons.IH [OF rest] f show ?case by simp
qed

lemma upload_files_append:
  "upload_files srv h sid (xs @ ys) acc st =
     (case upload_files srv h sid xs acc st of
        None \<Rightarrow> None
      | Some (Inl e, st1) \<Rightarrow> Some (Inl e, st1)
      | Some (Inr ups, st1) \<Rightarrow> upload_files srv h sid ys ups st1)"
  by (induction xs arbitrary: acc st) (auto split: option.splits sum.splits)

lemma dummy_length: "length (encode ''This is a test upload file.'') = 27"
  by (simp add: encode_def)

lemma dummy_windows:
  "spec_windows chunk_size (encode ''This is a test upload file.'')
     = [encode ''This is a test upload file.'']"
proof -
  have ne: "encode ''This is a test upload file.'' \<noteq> []" using dummy_length by auto
  have le: "length (encode ''This is a test upload file.'') \<le> chunk_size"
    by (simp add: dummy_length chunk_size_def)
  from spec_windows_step [OF chunk_size_pos ne] le show ?thesis by simp
qed

lemma dummy_upload:
  assumes "fs st ''test_upload.txt'' = Some (File (encode ''This is a test upload file.''))"
  shows "upload_file srv h sid ''test_upload.txt'' st =
     (let req = CreateUploadSession h sid ''test_upload.txt'';
          r = srv (sent st @ [req]);
          st1 = st\<lparr>sent := sent st @ [req]\<rparr>
      in if http_error r then Some (Inl (HTTPError (error_line r)), st1)
         else case payload r of
                SessionJson u \<Rightarrow>
                  (let put = PutChunk u 0 26 27 (encode ''This is a test upload file.'');
                       rr = srv (sent st @ [req, put]);
                       st2 = st\<lparr>sent := sent st @ [req, put]\<rparr>
                   in if accepted rr then Some (Inr (), st2) else Some (Inl (chunk_error rr), st2))
              | _ \<Rightarrow> Some (Inl (KeyError ''uploadUrl''), st1))"
proof -
  have pw: "put_windows srv u 27 0 [encode ''This is a test upload file.''] st1 =
      (let put = PutChunk u 0 26 27 (encode ''This is a test upload file.'');
           rr = srv (sent st1 @ [put]);
           st2 = st1\<lparr>sent := sent st1 @ [put]\<rparr>
       in if accepted rr then (Inr (), st2) else (Inl (chunk_error rr), st2))" for u st1
  proof (cases "accepted (srv (sent st1 @ [PutChunk u 0 26 27 (encode ''This is a test upload file.'')]))")
    case True
    then show ?thesis
      using put_windows_accepted [of srv st1 u 0 "encode ''This is a test upload file.''" 27 "[]"]
      by (simp add: dummy_length Let_def)
  next
    case False
    then show ?thesis
      using put_windows_rejected [of srv st1 u 0 "encode ''This is a test upload file.''" 27 "[]"]
      by (simp add: dummy_length Let_def)
  qed
  show ?thesis
    by (simp add: upload_file_eq [OF assms] basename_def dummy_windows dummy_length pw Let_def
          split: payload.splits)
qed

lemma stages_fs:
  assumes "get_access_token srv st = (Inr token, st1)"
    and "get_or_create_folder srv h1 p1 n1 st1 = (Inr gid, st2)"
    and "get_or_create_folder srv h2 p2 n2 st2 = (Inr sid, st3)"
  shows "fs st3 = fs st"
proof -
  from get_access_token_state [OF assms(1)] have "fs st1 = fs st" by simp
  moreover from get_or_create_folder_state [OF assms(2)] have "fs st2 = fs st1" by simp
  moreover from get_or_create_folder_state [OF assms(3)] have "fs st3 = fs st2" by simp
  ultimately show ?thesis by simp
qed

section \<open>Claims\<close>

text \<open>
  C1. The claim: every invocation puts exactly one JSON object on the standard output, also
  when the token request or the folder creation fails. The script raises \<open>SystemExit\<close> in
  these two places, which \<open>except Exception\<close> does not catch: with a token endpoint that
  answers 401 the run ends with exit code 1 and an empty standard output.
\<close>

theorem token_failure_prints_nothing:
  "run deny_server default_args Map.empty
     = Some \<lparr>exit_code = 1, stdout = [], final = \<lparr>sent = [TokenRequest], fs = Map.empty\<rparr>\<rparr>"
  by (simp add: run_def main_def get_access_token_def http_def ok_def http_error_def deny_server_def)

text \<open>
  C2. The claim: a zero-length file is sent as exactly one zero-length window. On the code the
  loop guard \<open>start < filesize\<close> is false at once: the upload of an empty file that exists
  opens the session and writes no chunk at all.
\<close>

theorem empty_file_one_window_counterexample:
  "upload_file ok_server ''Bearer t'' ''sid'' ''empty.bin'' \<lparr>sent = [], fs = [''empty.bin'' \<mapsto> File []]\<rparr>
     = Some (Inr (), \<lparr>sent = [CreateUploadSession ''Bearer t'' ''sid'' ''empty.bin''],
                       fs = [''empty.bin'' \<mapsto> File []]\<rparr>)
   \<and> filter is_put [CreateUploadSession ''Bearer t'' ''sid'' ''empty.bin''] = []"
  by (simp add: upload_file_eq Let_def ok_server_def http_error_def basename_def)

text \<open>
  C2, as the code has it: whatever the service answers, the upload of a zero-length file
  returns, having issued the session request and nothing else, so no window is sent; it
  returns normally when the session is opened.
\<close>

theorem empty_file_sends_no_window:
  assumes "fs st p = Some (File [])"
  shows "\<exists>res st'. upload_file srv h parent p st = Some (res, st')
         \<and> sent st' = sent st @ [CreateUploadSession h parent (basename p)]
         \<and> filter is_put (sent st') = filter is_put (sent st)
         \<and> fs st' = fs st
         \<and> (res = Inr () \<longleftrightarrow> session_opened (srv (sent st @ [CreateUploadSession h parent (basename p)])))"
  using assms
  by (auto simp add: upload_file_eq Let_def session_opened_def split: if_splits payload.splits)

theorem empty_file_sends_no_window_witness:
  "fs \<lparr>sent = [], fs = [''empty.bin'' \<mapsto> File []]\<rparr> ''empty.bin'' = Some (File [])
   \<and> upload_file ok_server ''Bearer t'' ''sid'' ''empty.bin'' \<lparr>sent = [], fs = [''empty.bin'' \<mapsto> File []]\<rparr>
     = Some (Inr (), \<lparr>sent = [CreateUploadSession ''Bearer t'' ''sid'' ''empty.bin''],
                       fs = [''empty.bin'' \<mapsto> File []]\<rparr>)
   \<and> filter is_put (sent \<lparr>sent = [CreateUploadSession ''Bearer t'' ''sid'' ''empty.bin''],
                           fs = [''empty.bin'' \<mapsto> File []]\<rparr>) = []"
proof -
  let ?st = "\<lparr>sent = [], fs = [''empty.bin'' \<mapsto> File []]\<rparr>"
  let ?st' = "\<lparr>sent = [CreateUploadSession ''Bearer t'' ''sid'' ''empty.bin''],
               fs = [''empty.bin'' \<mapsto> File []]\<rparr>"
  have h1: "fs ?st ''empty.bin'' = Some (File [])" by simp
  have ev: "upload_file ok_server ''Bearer t'' ''sid'' ''empty.bin'' ?st = Some (Inr (), ?st')"
    by (simp add: upload_file_eq Let_def ok_server_def http_error_def basename_def)
  from empty_file_sends_no_window [OF h1, of ok_server "''Bearer t''" "''sid''"]
  obtain res st' where
    "upload_file ok_server ''Bearer t'' ''sid'' ''empty.bin'' ?st = Some (res, st')"
    "filter is_put (sent st') = filter is_put (sent ?st)" by blast
  with ev have "filter is_put (sent ?st') = []" by simp
  with h1 ev show ?thesis by blast
qed

text \<open>
  C3. For every local file that exists, whatever the service answers, \<open>upload_file\<close> returns,
  and the chunk writes it has issued after the session request are windows of the file read
  from offset 0: each carries the file size as total and its own length in the range, each
  but the last sent is exactly \<open>chunk_size\<close> (5 MiB) long, the \<open>i\<close>-th starts at
  \<open>i * chunk_size\<close>, each starts one past the end of the one before (so the ranges are
  strictly increasing, disjoint and contiguous), and together they are a prefix of the file.
  The upload returns normally exactly when the session is opened and every chunk write sent
  is accepted, and then the chunks are the whole file, once: the lengths add up to the size
  of the file.
\<close>

theorem upload_file_partition:
  assumes "fs st p = Some (File content)"
  shows "\<exists>res st' puts. upload_file srv h parent p st = Some (res, st')
     \<and> sent st' = sent st @ CreateUploadSession h parent (basename p) # puts
     \<and> (\<forall>r\<in>set puts. is_put r \<and> put_total r = int (length content)
            \<and> put_end r = put_start r + int (length (put_data r)) - 1
            \<and> 0 < length (put_data r) \<and> length (put_data r) \<le> chunk_size)
     \<and> (\<forall>i<length puts. put_start (puts ! i) = int (i * chunk_size))
     \<and> (\<forall>i. Suc i < length puts \<longrightarrow>
            length (put_data (puts ! i)) = chunk_size
            \<and> put_start (puts ! Suc i) = put_end (puts ! i) + 1
            \<and> put_start (puts ! i) \<le> put_end (puts ! i)
            \<and> put_end (puts ! i) < put_start (puts ! Suc i))
     \<and> (\<exists>rest. content = concat (map put_data puts) @ rest)
     \<and> (res = Inr () \<longleftrightarrow>
            session_opened (srv (sent st @ [CreateUploadSession h parent (basename p)]))
            \<and> all_accepted srv (sent st @ [CreateUploadSession h parent (basename p)]) puts)
     \<and> (res = Inr () \<longrightarrow>
            concat (map put_data puts) = content
            \<and> sum_list (map (length \<circ> put_data) puts) = length content
            \<and> length puts = (length content + chunk_size - 1) div chunk_size)
     \<and> chunk_size = 5 * 2 ^ 20"
proof -
  let ?ws = "spec_windows chunk_size content"
  let ?req = "CreateUploadSession h parent (basename p)"
  from upload_file_puts [OF assms, of srv h parent] obtain res st' k u
    where up: "upload_file srv h parent p st = Some (res, st')"
      and k: "k \<le> length ?ws"
      and tr: "sent st' = sent st @ ?req # chunk_puts u (int (length content)) 0 (take k ?ws)"
      and fin: "res = Inr () \<longrightarrow> k = length ?ws"
      and acc: "res = Inr () \<longleftrightarrow> session_opened (srv (sent st @ [?req]))
                  \<and> all_accepted srv (sent st @ [?req]) (chunk_puts u (int (length content)) 0 (take k ?ws))"
    by blast
  let ?puts = "chunk_puts u (int (length content)) 0 (take k ?ws)"
  have len: "length ?puts = k" using k by simp
  have a: "\<forall>r\<in>set ?puts. is_put r \<and> put_total r = int (length content)
            \<and> put_end r = put_start r + int (length (put_data r)) - 1
            \<and> 0 < length (put_data r) \<and> length (put_data r) \<le> chunk_size"
    using window_puts_shape [OF chunk_size_pos] by blast
  have b: "\<forall>i<length ?puts. put_start (?puts ! i) = int (i * chunk_size)"
    using window_puts_start [OF chunk_size_pos _ k] len by simp
  have c: "\<forall>i. Suc i < length ?puts \<longrightarrow>
            length (put_data (?puts ! i)) = chunk_size
            \<and> put_start (?puts ! Suc i) = put_end (?puts ! i) + 1
            \<and> put_start (?puts ! i) \<le> put_end (?puts ! i)
            \<and> put_end (?puts ! i) < put_start (?puts ! Suc i)"
  proof (intro allI impI)
    fix i
    assume i: "Suc i < length ?puts"
    with len have "Suc i < k" by simp
    from window_puts_contiguous [OF chunk_size_pos this k, of u "int (length content)"]
    have n: "length (put_data (?puts ! i)) = chunk_size"
      and s: "put_start (?puts ! Suc i) = put_end (?puts ! i) + 1" by simp_all
    from i have "?puts ! i \<in> set ?puts" by (intro nth_mem) simp
    with a have "put_end (?puts ! i) = put_start (?puts ! i) + int (length (put_data (?puts ! i))) - 1"
      and "0 < length (put_data (?puts ! i))" by blast+
    with n s show "length (put_data (?puts ! i)) = chunk_size
            \<and> put_start (?puts ! Suc i) = put_end (?puts ! i) + 1
            \<and> put_start (?puts ! i) \<le> put_end (?puts ! i)
            \<and> put_end (?puts ! i) < put_start (?puts ! Suc i)" by simp
  qed
  have d: "\<exists>rest. content = concat (map put_data ?puts) @ rest"
    using window_puts_prefix [OF chunk_size_pos] by blast
  have e: "res = Inr () \<longrightarrow>
            concat (map put_data ?puts) = content
            \<and> sum_list (map (length \<circ> put_data) ?puts) = length content
            \<and> length ?puts = (length content + chunk_size - 1) div chunk_size"
  proof
    assume "res = Inr ()"
    with fin have all: "take k ?ws = ?ws" and kk: "k = length ?ws" by simp_all
    from kk len have "length ?puts = (length content + chunk_size - 1) div chunk_size"
      by (simp only: spec_windows_length [OF chunk_size_pos])
    with all window_puts_all [OF chunk_size_pos, of u "int (length content)" 0 content]
    show "concat (map put_data ?puts) = content
            \<and> sum_list (map (length \<circ> put_data) ?puts) = length content
            \<and> length ?puts = (length content + chunk_size - 1) div chunk_size" by simp
  qed
  have f: "chunk_size = 5 * 2 ^ 20" by (simp add: chunk_size_def)
  from up tr a b c d acc e f show ?thesis
    by (intro exI [of _ res] exI [of _ st'] exI [of _ ?puts] conjI)
qed

theorem upload_file_partition_witness:
  "fs \<lparr>sent = [], fs = [''a.bin'' \<mapsto> File (replicate chunk_size 0 @ [1])]\<rparr> ''a.bin''
     = Some (File (replicate chunk_size 0 @ [1]))
   \<and> upload_file ok_server ''Bearer t'' ''sid'' ''a.bin''
         \<lparr>sent = [], fs = [''a.bin'' \<mapsto> File (replicate chunk_size 0 @ [1])]\<rparr>
       = Some (Inr (), \<lparr>sent = [CreateUploadSession ''Bearer t'' ''sid'' ''a.bin'',
                                  PutChunk ''u'' 0 (int chunk_size - 1) (int chunk_size + 1)
                                    (replicate chunk_size 0),
                                  PutChunk ''u'' (int chunk_size) (int chunk_size) (int chunk_size + 1) [1]],
                         fs = [''a.bin'' \<mapsto> File (replicate chunk_size 0 @ [1])]\<rparr>)
   \<and> sum_list (map (length \<circ> put_data)
         [PutChunk ''u'' 0 (int chunk_size - 1) (int chunk_size + 1) (replicate chunk_size 0),
          PutChunk ''u'' (int chunk_size) (int chunk_size) (int chunk_size + 1) [1]])
       = length (replicate chunk_size (0 :: byte) @ [1])"
proof -
  let ?content = "replicate chunk_size (0 :: byte) @ [1]"
  let ?st = "\<lparr>sent = [], fs = [''a.bin'' \<mapsto> File ?content]\<rparr>"
  let ?puts = "[PutChunk ''u'' 0 (int chunk_size - 1) (int chunk_size + 1) (replicate chunk_size 0),
                PutChunk ''u'' (int chunk_size) (int chunk_size) (int chunk_size + 1) [1]]"
  let ?st' = "\<lparr>sent = CreateUploadSession ''Bearer t'' ''sid'' ''a.bin'' # ?puts,
               fs = [''a.bin'' \<mapsto> File ?content]\<rparr>"
  have h: "fs ?st ''a.bin'' = Some (File ?content)" by simp
  have ev: "upload_file ok_server ''Bearer t'' ''sid'' ''a.bin'' ?st = Some (Inr (), ?st')"
    by (simp add: upload_file_eq Let_def ok_server_def http_error_def basename_def two_windows
          put_windows_accepted accepted_def)
  from upload_file_partition [OF h, of ok_server "''Bearer t''" "''sid''"]
  obtain res st' puts where
    "upload_file ok_server ''Bearer t'' ''sid'' ''a.bin'' ?st = Some (res, st')"
    "sent st' = sent ?st @ CreateUploadSession ''Bearer t'' ''sid'' (basename ''a.bin'') # puts"
    "res = Inr () \<longrightarrow> concat (map put_data puts) = ?content
        \<and> sum_list (map (length \<circ> put_data) puts) = length ?content
        \<and> length puts = (length ?content + chunk_size - 1) div chunk_size"
    by blast
  with ev have "sum_list (map (length \<circ> put_data) ?puts) = length ?content"
    by (auto simp add: basename_def)
  with h ev show ?thesis by blast
qed

text \<open>
  C10. The claim: the chunk loop terminates after exactly \<open>ceil (filesize / (5 * 2^20))\<close>
  chunk writes. The loop does terminate, but a refused chunk write ends it early: for a file
  of \<open>chunk_size + 1\<close> bytes and a service that answers 401 it performs one write, where
  the ceiling is 2.
\<close>

theorem refused_chunk_ends_loop_counterexample:
  "upload_loop deny_server chunk_size ''u'' (replicate chunk_size 0 @ [1])
       (int (length (replicate chunk_size (0 :: byte) @ [1]))) 0 0 \<lparr>sent = [], fs = Map.empty\<rparr>
     = Some (Inl (chunk_error (deny_server [])),
             \<lparr>sent = [PutChunk ''u'' 0 (int chunk_size - 1) (int chunk_size + 1) (replicate chunk_size 0)],
              fs = Map.empty\<rparr>)
   \<and> (length (replicate chunk_size (0 :: byte) @ [1]) + chunk_size - 1) div chunk_size = 2"
proof -
  let ?content = "replicate chunk_size (0 :: byte) @ [1]"
  have "length (spec_windows chunk_size ?content) = 2" by (simp add: two_windows)
  then have "(length ?content + chunk_size - 1) div chunk_size = 2"
    by (simp only: spec_windows_length [OF chunk_size_pos])
  moreover have "upload_loop deny_server chunk_size ''u'' ?content (int (length ?content)) 0 0
       \<lparr>sent = [], fs = Map.empty\<rparr>
     = Some (Inl (chunk_error (deny_server [])),
             \<lparr>sent = [PutChunk ''u'' 0 (int chunk_size - 1) (int chunk_size + 1) (replicate chunk_size 0)],
              fs = Map.empty\<rparr>)"
    using upload_loop_eq [OF chunk_size_pos, of 0 ?content deny_server "''u''" "\<lparr>sent = [], fs = Map.empty\<rparr>"]
    by (simp add: two_windows put_windows_rejected accepted_def deny_server_def)
  ultimately show ?thesis by blast
qed

text \<open>
  C10, as the code has it. For a file whose bytes are fixed during the transfer the chunk
  loop (started as \<open>upload_file\<close> starts it, cursor and read position at 0) always returns:
  the cursor grows by the positive length of each chunk. It ends normally exactly when every
  chunk write it sent is accepted, and has then performed exactly
  \<open>ceil (filesize / (5 * 2^20))\<close> writes, none for a zero-length file. Otherwise it ends
  with the exception for the answer to its last write, after at least one and at most that
  many writes.
\<close>

theorem upload_loop_terminates:
  "\<exists>res st' puts. upload_loop srv chunk_size upload_url content (int (length content)) 0 0 st = Some (res, st')
     \<and> sent st' = sent st @ puts \<and> fs st' = fs st
     \<and> (\<forall>r\<in>set puts. is_put r \<and> 0 < length (put_data r))
     \<and> (\<forall>i<length puts. put_start (puts ! i) = int (i * chunk_size))
     \<and> length puts \<le> (length content + chunk_size - 1) div chunk_size
     \<and> (res = Inr () \<longleftrightarrow> all_accepted srv (sent st) puts)
     \<and> (res = Inr () \<longrightarrow> length puts = (length content + chunk_size - 1) div chunk_size)
     \<and> (res \<noteq> Inr () \<longrightarrow> puts \<noteq> [] \<and> res = Inl (chunk_error (srv (sent st'))))
     \<and> (content = [] \<longrightarrow> res = Inr () \<and> puts = [])
     \<and> chunk_size = 5 * 2 ^ 20"
proof -
  let ?ws = "spec_windows chunk_size content"
  let ?n = "int (length content)"
  obtain res st' where pw: "put_windows srv upload_url ?n 0 ?ws st = (res, st')"
    by (cases "put_windows srv upload_url ?n 0 ?ws st")
  have loop: "upload_loop srv chunk_size upload_url content ?n 0 0 st = Some (res, st')"
    using upload_loop_eq [OF chunk_size_pos, of 0 content srv upload_url st] pw by simp
  from put_windows_sent [OF pw] obtain k where k: "k \<le> length ?ws"
    and tr: "sent st' = sent st @ chunk_puts upload_url ?n 0 (take k ?ws)"
    and fs: "fs st' = fs st" and fin: "res = Inr () \<longrightarrow> k = length ?ws"
    and acc: "res = Inr () \<longleftrightarrow> all_accepted srv (sent st) (chunk_puts upload_url ?n 0 (take k ?ws))"
    and rej: "res \<noteq> Inr () \<longrightarrow> 0 < k \<and> res = Inl (chunk_error (srv (sent st')))" by blast
  let ?puts = "chunk_puts upload_url ?n 0 (take k ?ws)"
  have len: "length ?puts = k" using k by simp
  have cnt: "length ?ws = (length content + chunk_size - 1) div chunk_size"
    using chunk_size_pos by (rule spec_windows_length)
  have a: "\<forall>r\<in>set ?puts. is_put r \<and> 0 < length (put_data r)"
    using window_puts_shape [OF chunk_size_pos] by blast
  have b: "\<forall>i<length ?puts. put_start (?puts ! i) = int (i * chunk_size)"
    using window_puts_start [OF chunk_size_pos _ k] len by simp
  have c: "length ?puts \<le> (length content + chunk_size - 1) div chunk_size"
    using len k cnt by simp
  have d: "res = Inr () \<longrightarrow> length ?puts = (length content + chunk_size - 1) div chunk_size"
    using len fin cnt by simp
  have r: "res \<noteq> Inr () \<longrightarrow> ?puts \<noteq> [] \<and> res = Inl (chunk_error (srv (sent st')))"
  proof
    assume "res \<noteq> Inr ()"
    with rej have "0 < k" and e: "res = Inl (chunk_error (srv (sent st')))" by simp_all
    with len have "length ?puts \<noteq> 0" by simp
    then have "?puts \<noteq> []" by (simp only: length_0_conv not_False_eq_True)
    with e show "?puts \<noteq> [] \<and> res = Inl (chunk_error (srv (sent st')))" by simp
  qed
  have e: "content = [] \<longrightarrow> res = Inr () \<and> ?puts = []"
    using pw by auto
  have f: "chunk_size = 5 * 2 ^ 20" by (simp add: chunk_size_def)
  from loop tr fs a b c acc d r e f show ?thesis
    by (intro exI [of _ res] exI [of _ st'] exI [of _ ?puts] conjI)
qed

theorem upload_loop_terminates_witness:
  "upload_loop ok_server chunk_size ''u'' (replicate chunk_size 0 @ [1])
       (int (length (replicate chunk_size (0 :: byte) @ [1]))) 0 0 \<lparr>sent = [], fs = Map.empty\<rparr>
     = Some (Inr (), \<lparr>sent = [PutChunk ''u'' 0 (int chunk_size - 1) (int chunk_size + 1)
                                 (replicate chunk_size 0),
                               PutChunk ''u'' (int chunk_size) (int chunk_size) (int chunk_size + 1) [1]],
                      fs = Map.empty\<rparr>)
   \<and> length [PutChunk ''u'' 0 (int chunk_size - 1) (int chunk_size + 1) (replicate chunk_size 0),
             PutChunk ''u'' (int chunk_size) (int chunk_size) (int chunk_size + 1) [1]]
       = (length (replicate chunk_size (0 :: byte) @ [1]) + chunk_size - 1) div chunk_size"
proof -
  let ?content = "replicate chunk_size (0 :: byte) @ [1]"
  let ?st = "\<lparr>sent = [], fs = Map.empty\<rparr>"
  let ?puts = "[PutChunk ''u'' 0 (int chunk_size - 1) (int chunk_size + 1) (replicate chunk_size 0),
                PutChunk ''u'' (int chunk_size) (int chunk_size) (int chunk_size + 1) [1]]"
  let ?st' = "\<lparr>sent = ?puts, fs = Map.empty\<rparr>"
  have ev: "upload_loop ok_server chunk_size ''u'' ?content (int (length ?content)) 0 0 ?st
            = Some (Inr (), ?st')"
    using upload_loop_eq [OF chunk_size_pos, of 0 ?content ok_server "''u''" ?st]
    by (simp add: two_windows put_windows_accepted accepted_def ok_server_def)
  from upload_loop_terminates [of ok_server "''u''" ?content ?st]
  obtain res st' puts where
    "upload_loop ok_server chunk_size ''u'' ?content (int (length ?content)) 0 0 ?st = Some (res, st')"
    "sent st' = sent ?st @ puts"
    "res = Inr () \<longrightarrow> length puts = (length ?content + chunk_size - 1) div chunk_size"
    by blast
  with ev have "length ?puts = (length ?content + chunk_size - 1) div chunk_size" by auto
  with ev show ?thesis by blast
qed

text \<open>
  C5. The claim: any input path that does not exist makes the run fail with exit code 1. When
  the only file asked for is \<open>test_upload.txt\<close> and it does not exist, the script writes it
  and uploads it: the run ends with exit code 0.
\<close>

theorem missing_default_file_counterexample:
  "[''other.txt'' \<mapsto> File []] ''test_upload.txt'' = None
   \<and> run ok_server \<lparr>subfolder = ''data'', files_to_upload = [''test_upload.txt''], new_emails = []\<rparr>
         [''other.txt'' \<mapsto> File []]
     = Some \<lparr>exit_code = 0,
             stdout = [[(''status'', JStr ''success''),
                        (''base_folder'', JStr ''GlycoShield''),
                        (''sub_folder'', JStr ''data''),
                        (''sub_folder_id'', JStr ''id-data''),
                        (''files_uploaded'', JList [''test_upload.txt'']),
                        (''shared_with'', JList [''simbiosyslab.neu@gmail.com'']),
                        (''invite_link'', JStr ''https://share.example/x'')]],
             final = \<lparr>sent = [TokenRequest,
                              ListChildren ''Bearer t'' ''root'' ''GlycoShield'',
                              ListChildren ''Bearer t'' ''id-GlycoShield'' ''data'',
                              CreateUploadSession ''Bearer t'' ''id-data'' ''test_upload.txt'',
                              PutChunk ''u'' 0 26 27 (encode ''This is a test upload file.''),
                              Invite ''Bearer t'' ''id-data'' [''simbiosyslab.neu@gmail.com''] ''data''],
                      fs = [''other.txt'' \<mapsto> File [],
                            ''test_upload.txt'' \<mapsto> File (encode ''This is a test upload file.'')]\<rparr>\<rparr>"
proof -
  let ?a = "\<lparr>subfolder = ''data'', files_to_upload = [''test_upload.txt''], new_emails = []\<rparr>"
  let ?disk = "[''other.txt'' \<mapsto> File []]"
  let ?st1 = "\<lparr>sent = [TokenRequest], fs = ?disk\<rparr>"
  let ?st2 = "\<lparr>sent = [TokenRequest, ListChildren ''Bearer t'' ''root'' ''GlycoShield''], fs = ?disk\<rparr>"
  let ?st3 = "\<lparr>sent = [TokenRequest, ListChildren ''Bearer t'' ''root'' ''GlycoShield'',
                        ListChildren ''Bearer t'' ''id-GlycoShield'' ''data''], fs = ?disk\<rparr>"
  let ?session = "CreateUploadSession ''Bearer t'' ''id-data'' ''test_upload.txt''"
  let ?put = "PutChunk ''u'' 0 26 27 (encode ''This is a test upload file.'')"
  let ?invite = "Invite ''Bearer t'' ''id-data'' [''simbiosyslab.neu@gmail.com''] ''data''"
  have tok: "get_access_token ok_server \<lparr>sent = [], fs = ?disk\<rparr> = (Inr ''t'', ?st1)"
    by (simp add: get_access_token_def http_sent ok_def http_error_def ok_server_def)
  have base: "get_or_create_folder ok_server (''Bearer '' @ ''t'') ''root'' BASE_FOLDER_NAME ?st1
                = (Inr ''id-GlycoShield'', ?st2)"
    by (simp add: get_or_create_folder_def http_sent http_error_def ok_server_def
          folder_match_def BASE_FOLDER_NAME_def)
  have sub: "get_or_create_folder ok_server (''Bearer '' @ ''t'') ''id-GlycoShield'' (subfolder ?a) ?st2
                = (Inr ''id-data'', ?st3)"
    by (simp add: get_or_create_folder_def http_sent http_error_def ok_server_def folder_match_def)
  have ups: "upload_files ok_server (''Bearer '' @ ''t'') ''id-data'' (files_to_upload ?a) []
               (if files_to_upload ?a = [''test_upload.txt''] \<and> fs ?st3 ''test_upload.txt'' = None
                then dummy_file ?st3 else ?st3)
             = Some (Inr [''test_upload.txt''],
                     \<lparr>sent = sent ?st3 @ [?session, ?put],
                      fs = ?disk(''test_upload.txt'' \<mapsto> File (encode ''This is a test upload file.''))\<rparr>)"
    by (simp add: dummy_file_def dummy_upload Let_def http_error_def ok_server_def accepted_def)
  show ?thesis
    by (simp add: run_def main_invite [OF tok base sub ups] grant_folder_access_eq Let_def ok_server_def
          ok_def http_error_def permissions_of_def DEFAULT_RECIPIENT_EMAILS_def BASE_FOLDER_NAME_def)
qed

text \<open>
  C5, as the code has it. Let the file list be another one than the single
  \<open>test_upload.txt\<close>, and let a path \<open>p\<close> of the list not exist. Then \<open>upload_file\<close> on \<open>p\<close>
  raises before any request is sent, whatever was sent before; the run always ends with exit
  code 1; and when the token, the two folders and the uploads of the files listed before
  \<open>p\<close> succeed, it prints the failure record whose \<open>error\<close> is
  \<open>The specified file does not exist:\<close> followed by \<open>p\<close>, with no request sent after those
  uploads.
\<close>

theorem missing_file_fails:
  assumes nd: "files_to_upload a \<noteq> [''test_upload.txt'']"
    and files: "files_to_upload a = before @ p # after"
    and missing: "disk p = None"
  shows "(\<forall>h sid tr. upload_file srv h sid p \<lparr>sent = tr, fs = disk\<rparr>
             = Some (Inl (FileNotFoundError (''The specified file does not exist: '' @ p)),
                     \<lparr>sent = tr, fs = disk\<rparr>))
       \<and> (\<exists>out. run srv a disk = Some out \<and> exit_code out = 1)
       \<and> (\<forall>token st1 gid st2 sid st3 st4.
             get_access_token srv \<lparr>sent = [], fs = disk\<rparr> = (Inr token, st1)
             \<and> get_or_create_folder srv (''Bearer '' @ token) ''root'' BASE_FOLDER_NAME st1 = (Inr gid, st2)
             \<and> get_or_create_folder srv (''Bearer '' @ token) gid (subfolder a) st2 = (Inr sid, st3)
             \<and> upload_files srv (''Bearer '' @ token) sid before [] st3 = Some (Inr before, st4)
           \<longrightarrow> run srv a disk
                 = Some \<lparr>exit_code = 1,
                         stdout = [[(''status'', JStr ''failure''),
                                    (''error'', JStr (''The specified file does not exist: '' @ p))]],
                         final = st4\<rparr>)"
proof (intro conjI allI impI)
  fix h sid tr
  from missing show "upload_file srv h sid p \<lparr>sent = tr, fs = disk\<rparr>
             = Some (Inl (FileNotFoundError (''The specified file does not exist: '' @ p)),
                     \<lparr>sent = tr, fs = disk\<rparr>)"
    by (simp add: upload_file_missing)
next
  from main_total [of srv a "\<lparr>sent = [], fs = disk\<rparr>"] obtain res st'
    where m: "main srv a \<lparr>sent = [], fs = disk\<rparr> = Some (res, st')" by blast
  have "\<exists>e. res = Inl e"
  proof (cases res)
    case (Inl e)
    then show ?thesis by simp
  next
    case (Inr obj)
    from m show ?thesis
    proof (cases rule: main_cases)
      case (success token st1 gid st2 sid st3 ups st5 share_link)
      from stages_fs [OF success(1-3)] have fs3: "fs st3 = disk" by simp
      from success(4) nd have "upload_files srv (''Bearer '' @ token) sid (files_to_upload a) [] st3
          = Some (Inr ups, st5)" by simp
      from upload_files_done [OF this] files have "fs st3 p \<noteq> None" by simp
      with fs3 missing show ?thesis by simp
    qed (use Inr in simp_all)
  qed
  then obtain e where "res = Inl e" ..
  with m show "\<exists>out. run srv a disk = Some out \<and> exit_code out = 1"
    by (simp add: run_def)
next
  fix token st1 gid st2 sid st3 st4
  assume st: "get_access_token srv \<lparr>sent = [], fs = disk\<rparr> = (Inr token, st1)
             \<and> get_or_create_folder srv (''Bearer '' @ token) ''root'' BASE_FOLDER_NAME st1 = (Inr gid, st2)
             \<and> get_or_create_folder srv (''Bearer '' @ token) gid (subfolder a) st2 = (Inr sid, st3)
             \<and> upload_files srv (''Bearer '' @ token) sid before [] st3 = Some (Inr before, st4)"
  then have tok: "get_access_token srv \<lparr>sent = [], fs = disk\<rparr> = (Inr token, st1)"
    and base: "get_or_create_folder srv (''Bearer '' @ token) ''root'' BASE_FOLDER_NAME st1 = (Inr gid, st2)"
    and sub: "get_or_create_folder srv (''Bearer '' @ token) gid (subfolder a) st2 = (Inr sid, st3)"
    and ups: "upload_files srv (''Bearer '' @ token) sid before [] st3 = Some (Inr before, st4)"
    by simp_all
  from stages_fs [OF tok base sub] have "fs st3 = disk" by simp
  with upload_files_fs [OF ups] missing have "fs st4 p = None" by simp
  then have "upload_files srv (''Bearer '' @ token) sid (p # after) before st4
      = Some (Inl (FileNotFoundError (''The specified file does not exist: '' @ p)), st4)"
    by (simp add: upload_file_missing)
  with ups have "upload_files srv (''Bearer '' @ token) sid (files_to_upload a) [] st3
      = Some (Inl (FileNotFoundError (''The specified file does not exist: '' @ p)), st4)"
    by (simp add: files upload_files_append)
  with tok base sub nd show "run srv a disk
                 = Some \<lparr>exit_code = 1,
                         stdout = [[(''status'', JStr ''failure''),
                                    (''error'', JStr (''The specified file does not exist: '' @ p))]],
                         final = st4\<rparr>"
    by (simp add: run_def main_def Let_def)
qed

theorem missing_file_fails_witness:
  "files_to_upload \<lparr>subfolder = ''public'', files_to_upload = [''a.bin'', ''missing.zip''], new_emails = []\<rparr>
     \<noteq> [''test_upload.txt'']
   \<and> [''a.bin'' \<mapsto> File [1]] ''missing.zip'' = None
   \<and> run ok_server \<lparr>subfolder = ''public'', files_to_upload = [''a.bin'', ''missing.zip''], new_emails = []\<rparr>
         [''a.bin'' \<mapsto> File [1]]
     = Some \<lparr>exit_code = 1,
             stdout = [[(''status'', JStr ''failure''),
                        (''error'', JStr ''The specified file does not exist: missing.zip'')]],
             final = \<lparr>sent = [TokenRequest,
                              ListChildren ''Bearer t'' ''root'' ''GlycoShield'',
                              ListChildren ''Bearer t'' ''id-GlycoShield'' ''public'',
                              CreateUploadSession ''Bearer t'' ''id-public'' ''a.bin'',
                              PutChunk ''u'' 0 0 1 [1]],
                      fs = [''a.bin'' \<mapsto> File [1]]\<rparr>\<rparr>"
proof -
  let ?a = "\<lparr>subfolder = ''public'', files_to_upload = [''a.bin'', ''missing.zip''], new_emails = []\<rparr>"
  let ?disk = "[''a.bin'' \<mapsto> File [1]]"
  let ?st1 = "\<lparr>sent = [TokenRequest], fs = ?disk\<rparr>"
  let ?st2 = "\<lparr>sent = [TokenRequest, ListChildren ''Bearer t'' ''root'' ''GlycoShield''], fs = ?disk\<rparr>"
  let ?st3 = "\<lparr>sent = [TokenRequest, ListChildren ''Bearer t'' ''root'' ''GlycoShield'',
                        ListChildren ''Bearer t'' ''id-GlycoShield'' ''public''], fs = ?disk\<rparr>"
  let ?st4 = "\<lparr>sent = [TokenRequest, ListChildren ''Bearer t'' ''root'' ''GlycoShield'',
                        ListChildren ''Bearer t'' ''id-GlycoShield'' ''public'',
                        CreateUploadSession ''Bearer t'' ''id-public'' ''a.bin'',
                        PutChunk ''u'' 0 0 1 [1]], fs = ?disk\<rparr>"
  have nd: "files_to_upload ?a \<noteq> [''test_upload.txt'']" by simp
  have files: "files_to_upload ?a = [''a.bin''] @ ''missing.zip'' # []" by simp
  have missing: "?disk ''missing.zip'' = None" by simp
  have tok: "get_access_token ok_server \<lparr>sent = [], fs = ?disk\<rparr> = (Inr ''t'', ?st1)"
    by (simp add: get_access_token_def http_sent ok_def http_error_def ok_server_def)
  have base: "get_or_create_folder ok_server (''Bearer '' @ ''t'') ''root'' BASE_FOLDER_NAME ?st1
                = (Inr ''id-GlycoShield'', ?st2)"
    by (simp add: get_or_create_folder_def http_sent http_error_def ok_server_def
          folder_match_def BASE_FOLDER_NAME_def)
  have sub: "get_or_create_folder ok_server (''Bearer '' @ ''t'') ''id-GlycoShield'' (subfolder ?a) ?st2
                = (Inr ''id-public'', ?st3)"
    by (simp add: get_or_create_folder_def http_sent http_error_def ok_server_def folder_match_def)
  have ups: "upload_files ok_server (''Bearer '' @ ''t'') ''id-public'' [''a.bin''] [] ?st3
               = Some (Inr [''a.bin''], ?st4)"
    by (simp add: upload_file_eq Let_def http_error_def ok_server_def basename_def
          one_window put_windows_accepted accepted_def)
  from missing_file_fails [where a = ?a and before = "[''a.bin'']" and p = "''missing.zip''"
         and after = "[]" and disk = ?disk and srv = ok_server, OF nd files missing] tok base sub ups
  have "run ok_server ?a ?disk
                 = Some \<lparr>exit_code = 1,
                         stdout = [[(''status'', JStr ''failure''),
                                    (''error'', JStr (''The specified file does not exist: '' @ ''missing.zip''))]],
                         final = ?st4\<rparr>"
    by blast
  with nd missing show ?thesis by simp
qed

text \<open>
  C6. When the pipeline has reached the invite (token, both folders and every upload done) and
  the answer to the invite carries no permission record, the run ends with exit code 1 and
  prints one failure record with a message and no invite link; the message is
  \<open>Invite sent, but no permission data was returned.\<close> when the answer is a success
  answer. With a permission record in the answer the run never prints that failure.
\<close>

theorem empty_permissions_fail:
  assumes tok: "get_access_token srv \<lparr>sent = [], fs = disk\<rparr> = (Inr token, st1)"
    and base: "get_or_create_folder srv (''Bearer '' @ token) ''root'' BASE_FOLDER_NAME st1 = (Inr gid, st2)"
    and sub: "get_or_create_folder srv (''Bearer '' @ token) gid (subfolder a) st2 = (Inr sid, st3)"
    and ups: "upload_files srv (''Bearer '' @ token) sid (files_to_upload a) []
           (if files_to_upload a = [''test_upload.txt''] \<and> fs st3 ''test_upload.txt'' = None
            then dummy_file st3 else st3) = Some (Inr ups, st5)"
    and inv: "invite = Invite (''Bearer '' @ token) sid (DEFAULT_RECIPIENT_EMAILS @ new_emails a) (subfolder a)"
    and r: "r = srv (sent st5 @ [invite])"
  shows "(permissions_of r = [] \<longrightarrow>
            (\<exists>msg. run srv a disk
                = Some \<lparr>exit_code = 1,
                        stdout = [[(''status'', JStr ''failure''), (''error'', JStr msg)]],
                        final = st5\<lparr>sent := sent st5 @ [invite]\<rparr>\<rparr>
              \<and> (ok r \<longrightarrow> msg = ''Invite sent, but no permission data was returned.'')))
       \<and> (permissions_of r \<noteq> [] \<longrightarrow>
            (\<exists>out. run srv a disk = Some out
              \<and> final out = st5\<lparr>sent := sent st5 @ [invite]\<rparr>
              \<and> stdout out \<noteq> [[(''status'', JStr ''failure''),
                                 (''error'', JStr ''Invite sent, but no permission data was returned.'')]]))"
proof -
  note m = main_invite [OF tok base sub ups]
  show ?thesis
  proof (cases "ok r")
    case False
    with r inv show ?thesis
      by (cases "permissions_of r") (simp_all add: run_def m grant_folder_access_eq Let_def)
  next
    case True
    show ?thesis
    proof (cases "permissions_of r")
      case Nil
      with True r inv show ?thesis by (simp add: run_def m grant_folder_access_eq Let_def)
    next
      case (Cons p ps)
      with True r inv show ?thesis by (simp add: run_def m grant_folder_access_eq Let_def)
    qed
  qed
qed

theorem empty_permissions_fail_witness:
  "run (invite_server []) \<lparr>subfolder = ''public'', files_to_upload = [''a.bin''], new_emails = []\<rparr>
       [''a.bin'' \<mapsto> File [1]]
     = Some \<lparr>exit_code = 1,
             stdout = [[(''status'', JStr ''failure''),
                        (''error'', JStr ''Invite sent, but no permission data was returned.'')]],
             final = \<lparr>sent = [TokenRequest,
                              ListChildren ''Bearer t'' ''root'' ''GlycoShield'',
                              ListChildren ''Bearer t'' ''id-GlycoShield'' ''public'',
                              CreateUploadSession ''Bearer t'' ''id-public'' ''a.bin'',
                              PutChunk ''u'' 0 0 1 [1],
                              Invite ''Bearer t'' ''id-public'' [''simbiosyslab.neu@gmail.com''] ''public''],
                      fs = [''a.bin'' \<mapsto> File [1]]\<rparr>\<rparr>"
proof -
  let ?srv = "invite_server []"
  let ?a = "\<lparr>subfolder = ''public'', files_to_upload = [''a.bin''], new_emails = []\<rparr>"
  let ?disk = "[''a.bin'' \<mapsto> File [1]]"
  let ?st1 = "\<lparr>sent = [TokenRequest], fs = ?disk\<rparr>"
  let ?st2 = "\<lparr>sent = [TokenRequest, ListChildren ''Bearer t'' ''root'' ''GlycoShield''], fs = ?disk\<rparr>"
  let ?st3 = "\<lparr>sent = [TokenRequest, ListChildren ''Bearer t'' ''root'' ''GlycoShield'',
                        ListChildren ''Bearer t'' ''id-GlycoShield'' ''public''], fs = ?disk\<rparr>"
  let ?st5 = "\<lparr>sent = [TokenRequest, ListChildren ''Bearer t'' ''root'' ''GlycoShield'',
                        ListChildren ''Bearer t'' ''id-GlycoShield'' ''public'',
                        CreateUploadSession ''Bearer t'' ''id-public'' ''a.bin'',
                        PutChunk ''u'' 0 0 1 [1]], fs = ?disk\<rparr>"
  let ?invite = "Invite ''Bearer t'' ''id-public'' [''simbiosyslab.neu@gmail.com''] ''public''"
  have tok: "get_access_token ?srv \<lparr>sent = [], fs = ?disk\<rparr> = (Inr ''t'', ?st1)"
    by (simp add: get_access_token_def http_sent ok_def http_error_def invite_server_def ok_server_def)
  have base: "get_or_create_folder ?srv (''Bearer '' @ ''t'') ''root'' BASE_FOLDER_NAME ?st1
                = (Inr ''id-GlycoShield'', ?st2)"
    by (simp add: get_or_create_folder_def http_sent http_error_def invite_server_def ok_server_def
          folder_match_def BASE_FOLDER_NAME_def)
  have sub: "get_or_create_folder ?srv (''Bearer '' @ ''t'') ''id-GlycoShield'' (subfolder ?a) ?st2
                = (Inr ''id-public'', ?st3)"
    by (simp add: get_or_create_folder_def http_sent http_error_def invite_server_def ok_server_def
          folder_match_def)
  have ups: "upload_files ?srv (''Bearer '' @ ''t'') ''id-public'' (files_to_upload ?a) []
               (if files_to_upload ?a = [''test_upload.txt''] \<and> fs ?st3 ''test_upload.txt'' = None
                then dummy_file ?st3 else ?st3) = Some (Inr [''a.bin''], ?st5)"
    by (simp add: upload_file_eq Let_def http_error_def invite_server_def ok_server_def basename_def
          one_window put_windows_accepted accepted_def)
  have inv: "?invite = Invite (''Bearer '' @ ''t'') ''id-public'' (DEFAULT_RECIPIENT_EMAILS @ new_emails ?a)
                         (subfolder ?a)"
    by (simp add: DEFAULT_RECIPIENT_EMAILS_def)
  have perms: "permissions_of (?srv (sent ?st5 @ [?invite])) = []"
    and okr: "ok (?srv (sent ?st5 @ [?invite]))"
    by (simp_all add: permissions_of_def invite_server_def ok_def http_error_def)
  from empty_permissions_fail [OF tok base sub ups inv refl] perms okr
  show ?thesis by auto
qed

text \<open>
  C7. When the pipeline has reached the invite and the answer is a success answer with at
  least one permission record, the run ends with exit code 0 and prints the success record.
  Its \<open>invite_link\<close> is the placeholder naming the folder when the first record has no
  \<open>link\<close>, or a link without \<open>webUrl\<close> (or with an empty one), and the \<open>webUrl\<close> of
  the first record otherwise.
\<close>

theorem missing_link_placeholder:
  assumes tok: "get_access_token srv \<lparr>sent = [], fs = disk\<rparr> = (Inr token, st1)"
    and base: "get_or_create_folder srv (''Bearer '' @ token) ''root'' BASE_FOLDER_NAME st1 = (Inr gid, st2)"
    and sub: "get_or_create_folder srv (''Bearer '' @ token) gid (subfolder a) st2 = (Inr sid, st3)"
    and ups: "upload_files srv (''Bearer '' @ token) sid (files_to_upload a) []
           (if files_to_upload a = [''test_upload.txt''] \<and> fs st3 ''test_upload.txt'' = None
            then dummy_file st3 else st3) = Some (Inr ups, st5)"
    and inv: "invite = Invite (''Bearer '' @ token) sid (DEFAULT_RECIPIENT_EMAILS @ new_emails a) (subfolder a)"
    and r: "r = srv (sent st5 @ [invite])"
    and okr: "ok r"
    and perms: "permissions_of r = perm # perms"
  shows "\<exists>l. run srv a disk
           = Some \<lparr>exit_code = 0,
                   stdout = [[(''status'', JStr ''success''),
                              (''base_folder'', JStr ''GlycoShield''),
                              (''sub_folder'', JStr (subfolder a)),
                              (''sub_folder_id'', JStr sid),
                              (''files_uploaded'', JList ups),
                              (''shared_with'', JList (''simbiosyslab.neu@gmail.com'' # new_emails a)),
                              (''invite_link'', JStr l)]],
                   final = st5\<lparr>sent := sent st5 @ [invite]\<rparr>\<rparr>
         \<and> (link perm = None \<or> link perm = Some None \<or> link perm = Some (Some [])
              \<longrightarrow> l = ''Access granted to item '' @ sid @ '' (no direct link returned)'')
         \<and> (\<forall>webUrl. link perm = Some (Some webUrl) \<and> webUrl \<noteq> [] \<longrightarrow> l = webUrl)"
proof -
  note m = main_invite [OF tok base sub ups]
  from okr perms r inv show ?thesis
    by (auto simp add: run_def m grant_folder_access_eq Let_def BASE_FOLDER_NAME_def
          DEFAULT_RECIPIENT_EMAILS_def split: option.splits)
qed

theorem missing_link_placeholder_witness:
  "run (invite_server [\<lparr>link = None\<rparr>])
       \<lparr>subfolder = ''public'', files_to_upload = [''a.bin''], new_emails = []\<rparr>
       [''a.bin'' \<mapsto> File [1]]
     = Some \<lparr>exit_code = 0,
             stdout = [[(''status'', JStr ''success''),
                        (''base_folder'', JStr ''GlycoShield''),
                        (''sub_folder'', JStr ''public''),
                        (''sub_folder_id'', JStr ''id-public''),
                        (''files_uploaded'', JList [''a.bin'']),
                        (''shared_with'', JList [''simbiosyslab.neu@gmail.com'']),
                        (''invite_link'',
                         JStr ''Access granted to item id-public (no direct link returned)'')]],
             final = \<lparr>sent = [TokenRequest,
                              ListChildren ''Bearer t'' ''root'' ''GlycoShield'',
                              ListChildren ''Bearer t'' ''id-GlycoShield'' ''public'',
                              CreateUploadSession ''Bearer t'' ''id-public'' ''a.bin'',
                              PutChunk ''u'' 0 0 1 [1],
                              Invite ''Bearer t'' ''id-public'' [''simbiosyslab.neu@gmail.com''] ''public''],
                      fs = [''a.bin'' \<mapsto> File [1]]\<rparr>\<rparr>"
proof -
  let ?srv = "invite_server [\<lparr>link = None\<rparr>]"
  let ?a = "\<lparr>subfolder = ''public'', files_to_upload = [''a.bin''], new_emails = []\<rparr>"
  let ?disk = "[''a.bin'' \<mapsto> File [1]]"
  let ?st1 = "\<lparr>sent = [TokenRequest], fs = ?disk\<rparr>"
  let ?st2 = "\<lparr>sent = [TokenRequest, ListChildren ''Bearer t'' ''root'' ''GlycoShield''], fs = ?disk\<rparr>"
  let ?st3 = "\<lparr>sent = [TokenRequest, ListChildren ''Bearer t'' ''root'' ''GlycoShield'',
                        ListChildren ''Bearer t'' ''id-GlycoShield'' ''public''], fs = ?disk\<rparr>"
  let ?st5 = "\<lparr>sent = [TokenRequest, ListChildren ''Bearer t'' ''root'' ''GlycoShield'',
                        ListChildren ''Bearer t'' ''id-GlycoShield'' ''public'',
                        CreateUploadSession ''Bearer t'' ''id-public'' ''a.bin'',
                        PutChunk ''u'' 0 0 1 [1]], fs = ?disk\<rparr>"
  let ?invite = "Invite ''Bearer t'' ''id-public'' [''simbiosyslab.neu@gmail.com''] ''public''"
  have tok: "get_access_token ?srv \<lparr>sent = [], fs = ?disk\<rparr> = (Inr ''t'', ?st1)"
    by (simp add: get_access_token_def http_sent ok_def http_error_def invite_server_def ok_server_def)
  have base: "get_or_create_folder ?srv (''Bearer '' @ ''t'') ''root'' BASE_FOLDER_NAME ?st1
                = (Inr ''id-GlycoShield'', ?st2)"
    by (simp add: get_or_create_folder_def http_sent http_error_def invite_server_def ok_server_def
          folder_match_def BASE_FOLDER_NAME_def)
  have sub: "get_or_create_folder ?srv (''Bearer '' @ ''t'') ''id-GlycoShield'' (subfolder ?a) ?st2
                = (Inr ''id-public'', ?st3)"
    by (simp add: get_or_create_folder_def http_sent http_error_def invite_server_def ok_server_def
          folder_match_def)
  have ups: "upload_files ?srv (''Bearer '' @ ''t'') ''id-public'' (files_to_upload ?a) []
               (if files_to_upload ?a = [''test_upload.txt''] \<and> fs ?st3 ''test_upload.txt'' = None
                then dummy_file ?st3 else ?st3) = Some (Inr [''a.bin''], ?st5)"
    by (simp add: upload_file_eq Let_def http_error_def invite_server_def ok_server_def basename_def
          one_window put_windows_accepted accepted_def)
  have inv: "?invite = Invite (''Bearer '' @ ''t'') ''id-public'' (DEFAULT_RECIPIENT_EMAILS @ new_emails ?a)
                         (subfolder ?a)"
    by (simp add: DEFAULT_RECIPIENT_EMAILS_def)
  have perms: "permissions_of (?srv (sent ?st5 @ [?invite])) = [\<lparr>link = None\<rparr>]"
    and okr: "ok (?srv (sent ?st5 @ [?invite]))"
    by (simp_all add: permissions_of_def invite_server_def ok_def http_error_def)
  from missing_link_placeholder [OF tok base sub ups inv refl okr perms]
  show ?thesis by auto
qed

text \<open>
  C9. With the default arguments and no \<open>test_upload.txt\<close> on the disk, once the token and
  the two folders are there, the run writes the placeholder file (and nothing else) to the
  disk and starts its upload instead of failing on the missing file: the next request is the
  upload session for \<open>test_upload.txt\<close>, followed, when the session is opened, by one chunk
  write with the 27 bytes of the placeholder. When that chunk is accepted and the invite
  answers with a permission record, the run ends with exit code 0 and the success record
  lists \<open>test_upload.txt\<close> in \<open>files_uploaded\<close>.
\<close>

theorem default_file_synthesized:
  assumes missing: "disk ''test_upload.txt'' = None"
    and tok: "get_access_token srv \<lparr>sent = [], fs = disk\<rparr> = (Inr token, st1)"
    and base: "get_or_create_folder srv (''Bearer '' @ token) ''root'' BASE_FOLDER_NAME st1 = (Inr gid, st2)"
    and sub: "get_or_create_folder srv (''Bearer '' @ token) gid ''public'' st2 = (Inr sid, st3)"
    and session: "session = CreateUploadSession (''Bearer '' @ token) sid ''test_upload.txt''"
    and put: "put = PutChunk u 0 26 27 (encode ''This is a test upload file.'')"
    and invite: "invite = Invite (''Bearer '' @ token) sid [''simbiosyslab.neu@gmail.com''] ''public''"
    and disk': "disk' = disk(''test_upload.txt'' \<mapsto> File (encode ''This is a test upload file.''))"
  shows "(\<exists>out rest. run srv default_args disk = Some out
            \<and> fs (final out) = disk'
            \<and> sent (final out) = sent st3 @ session # rest
            \<and> (\<not> http_error (srv (sent st3 @ [session]))
                 \<and> payload (srv (sent st3 @ [session])) = SessionJson u
               \<longrightarrow> rest \<noteq> [] \<and> hd rest = put))
       \<and> (\<not> http_error (srv (sent st3 @ [session]))
          \<and> payload (srv (sent st3 @ [session])) = SessionJson u
          \<and> accepted (srv (sent st3 @ [session, put]))
          \<and> ok (srv (sent st3 @ [session, put, invite]))
          \<and> permissions_of (srv (sent st3 @ [session, put, invite])) \<noteq> []
          \<longrightarrow> (\<exists>l. run srv default_args disk
                 = Some \<lparr>exit_code = 0,
                         stdout = [[(''status'', JStr ''success''),
                                    (''base_folder'', JStr ''GlycoShield''),
                                    (''sub_folder'', JStr ''public''),
                                    (''sub_folder_id'', JStr sid),
                                    (''files_uploaded'', JList [''test_upload.txt'']),
                                    (''shared_with'', JList [''simbiosyslab.neu@gmail.com'']),
                                    (''invite_link'', JStr l)]],
                         final = \<lparr>sent = sent st3 @ [session, put, invite], fs = disk'\<rparr>\<rparr>))"
proof -
  define st4 where "st4 = dummy_file st3"
  let ?h = "''Bearer '' @ token"
  from stages_fs [OF tok base sub] have fs3: "fs st3 = disk" by simp
  with missing have none: "fs st3 ''test_upload.txt'' = None" by simp
  have f4: "fs st4 = disk'" and s4: "sent st4 = sent st3"
    by (simp_all add: st4_def dummy_file_def fs3 disk')
  have e4: "st4 = \<lparr>sent = sent st3, fs = disk'\<rparr>" using f4 s4 by (cases st4) simp
  have ex: "fs st4 ''test_upload.txt'' = Some (File (encode ''This is a test upload file.''))"
    by (simp add: f4 disk')
  note du = dummy_upload [OF ex, of srv ?h sid]
  have m: "main srv default_args \<lparr>sent = [], fs = disk\<rparr> =
     (case upload_file srv ?h sid ''test_upload.txt'' st4 of
        None \<Rightarrow> None
      | Some (Inl e, s) \<Rightarrow> Some (Inl e, s)
      | Some (Inr v, s) \<Rightarrow>
          (case grant_folder_access srv ?h sid [''simbiosyslab.neu@gmail.com''] ''public'' s of
             (Inl e, s6) \<Rightarrow> Some (Inl e, s6)
           | (Inr l, s6) \<Rightarrow>
               Some (Inr [(''status'', JStr ''success''),
                          (''base_folder'', JStr ''GlycoShield''),
                          (''sub_folder'', JStr ''public''),
                          (''sub_folder_id'', JStr sid),
                          (''files_uploaded'', JList [''test_upload.txt'']),
                          (''shared_with'', JList [''simbiosyslab.neu@gmail.com'']),
                          (''invite_link'', JStr l)], s6)))"
    using tok base sub none
    by (simp add: main_def Let_def default_args_def st4_def DEFAULT_RECIPIENT_EMAILS_def
          BASE_FOLDER_NAME_def split: option.splits sum.splits prod.splits)
  show ?thesis
    unfolding run_def m du
    by (auto simp add: Let_def grant_folder_access_eq e4 session put invite
          split: payload.splits list.splits)
qed

theorem default_file_synthesized_witness:
  "Map.empty ''test_upload.txt'' = (None :: node option)
   \<and> run ok_server default_args Map.empty
     = Some \<lparr>exit_code = 0,
             stdout = [[(''status'', JStr ''success''),
                        (''base_folder'', JStr ''GlycoShield''),
                        (''sub_folder'', JStr ''public''),
                        (''sub_folder_id'', JStr ''id-public''),
                        (''files_uploaded'', JList [''test_upload.txt'']),
                        (''shared_with'', JList [''simbiosyslab.neu@gmail.com'']),
                        (''invite_link'', JStr ''https://share.example/x'')]],
             final = \<lparr>sent = [TokenRequest,
                              ListChildren ''Bearer t'' ''root'' ''GlycoShield'',
                              ListChildren ''Bearer t'' ''id-GlycoShield'' ''public'',
                              CreateUploadSession ''Bearer t'' ''id-public'' ''test_upload.txt'',
                              PutChunk ''u'' 0 26 27 (encode ''This is a test upload file.''),
                              Invite ''Bearer t'' ''id-public'' [''simbiosyslab.neu@gmail.com''] ''public''],
                      fs = [''test_upload.txt'' \<mapsto> File (encode ''This is a test upload file.'')]\<rparr>\<rparr>"
proof -
  let ?disk = "Map.empty :: string \<rightharpoonup> node"
  let ?st1 = "\<lparr>sent = [TokenRequest], fs = ?disk\<rparr>"
  let ?st2 = "\<lparr>sent = [TokenRequest, ListChildren ''Bearer t'' ''root'' ''GlycoShield''], fs = ?disk\<rparr>"
  let ?st3 = "\<lparr>sent = [TokenRequest, ListChildren ''Bearer t'' ''root'' ''GlycoShield'',
                        ListChildren ''Bearer t'' ''id-GlycoShield'' ''public''], fs = ?disk\<rparr>"
  let ?session = "CreateUploadSession ''Bearer t'' ''id-public'' ''test_upload.txt''"
  let ?put = "PutChunk ''u'' 0 26 27 (encode ''This is a test upload file.'')"
  let ?invite = "Invite ''Bearer t'' ''id-public'' [''simbiosyslab.neu@gmail.com''] ''public''"
  have missing: "?disk ''test_upload.txt'' = None" by simp
  have tok: "get_access_token ok_server \<lparr>sent = [], fs = ?disk\<rparr> = (Inr ''t'', ?st1)"
    by (simp add: get_access_token_def http_sent ok_def http_error_def ok_server_def)
  have base: "get_or_create_folder ok_server (''Bearer '' @ ''t'') ''root'' BASE_FOLDER_NAME ?st1
                = (Inr ''id-GlycoShield'', ?st2)"
    by (simp add: get_or_create_folder_def http_sent http_error_def ok_server_def
          folder_match_def BASE_FOLDER_NAME_def)
  have sub: "get_or_create_folder ok_server (''Bearer '' @ ''t'') ''id-GlycoShield'' ''public'' ?st2
                = (Inr ''id-public'', ?st3)"
    by (simp add: get_or_create_folder_def http_sent http_error_def ok_server_def folder_match_def)
  have session: "?session = CreateUploadSession (''Bearer '' @ ''t'') ''id-public'' ''test_upload.txt''"
    and invite: "?invite = Invite (''Bearer '' @ ''t'') ''id-public'' [''simbiosyslab.neu@gmail.com''] ''public''"
    by simp_all
  have answers: "\<not> http_error (ok_server (sent ?st3 @ [?session]))"
    "payload (ok_server (sent ?st3 @ [?session])) = SessionJson ''u''"
    "accepted (ok_server (sent ?st3 @ [?session, ?put]))"
    "ok (ok_server (sent ?st3 @ [?session, ?put, ?invite]))"
    "permissions_of (ok_server (sent ?st3 @ [?session, ?put, ?invite]))
       = [\<lparr>link = Some (Some ''https://share.example/x'')\<rparr>]"
    by (simp_all add: ok_server_def http_error_def ok_def accepted_def permissions_of_def)
  from default_file_synthesized [OF missing tok base sub session refl invite refl, of "''u''"] answers
  obtain l where l: "run ok_server default_args Map.empty
                 = Some \<lparr>exit_code = 0,
                         stdout = [[(''status'', JStr ''success''),
                                    (''base_folder'', JStr ''GlycoShield''),
                                    (''sub_folder'', JStr ''public''),
                                    (''sub_folder_id'', JStr ''id-public''),
                                    (''files_uploaded'', JList [''test_upload.txt'']),
                                    (''shared_with'', JList [''simbiosyslab.neu@gmail.com'']),
                                    (''invite_link'', JStr l)]],
                         final = \<lparr>sent = sent ?st3 @ [?session, ?put, ?invite],
                                  fs = ?disk(''test_upload.txt'' \<mapsto> File (encode ''This is a test upload file.''))\<rparr>\<rparr>"
    by auto
  have ups: "upload_files ok_server (''Bearer '' @ ''t'') ''id-public'' (files_to_upload default_args) []
               (if files_to_upload default_args = [''test_upload.txt''] \<and> fs ?st3 ''test_upload.txt'' = None
                then dummy_file ?st3 else ?st3)
             = Some (Inr [''test_upload.txt''],
                     \<lparr>sent = sent ?st3 @ [?session, ?put],
                      fs = ?disk(''test_upload.txt'' \<mapsto> File (encode ''This is a test upload file.''))\<rparr>)"
    by (simp add: default_args_def dummy_file_def dummy_upload Let_def http_error_def ok_server_def
          accepted_def)
  have sub': "get_or_create_folder ok_server (''Bearer '' @ ''t'') ''id-GlycoShield'' (subfolder default_args) ?st2
                = (Inr ''id-public'', ?st3)"
    using sub by (simp add: default_args_def)
  have "main ok_server default_args \<lparr>sent = [], fs = ?disk\<rparr>
          = Some (Inr [(''status'', JStr ''success''),
                        (''base_folder'', JStr ''GlycoShield''),
                        (''sub_folder'', JStr ''public''),
                        (''sub_folder_id'', JStr ''id-public''),
                        (''files_uploaded'', JList [''test_upload.txt'']),
                        (''shared_with'', JList [''simbiosyslab.neu@gmail.com'']),
                        (''invite_link'', JStr ''https://share.example/x'')],
                  \<lparr>sent = sent ?st3 @ [?session, ?put, ?invite],
                   fs = ?disk(''test_upload.txt'' \<mapsto> File (encode ''This is a test upload file.''))\<rparr>)"
    by (subst main_invite [OF tok base sub' ups])
       (simp add: grant_folder_access_eq Let_def ok_server_def
          ok_def http_error_def permissions_of_def default_args_def DEFAULT_RECIPIENT_EMAILS_def
          BASE_FOLDER_NAME_def)
  with l have "l = ''https://share.example/x''" by (simp add: run_def)
  with l missing show ?thesis by simp
qed

end
